theory Spec2Isabelle
  imports Main "HOL-Library.Sublist" "HOL-Library.AList"
begin

section \<open>Strings and paths\<close>

text \<open>
  JavaScript strings are modelled as \<open>string\<close>. The helpers below are the string
  methods the project manager calls: \<open>String.prototype.includes\<close>,
  \<open>lastIndexOf\<close> (which answers \<open>-1\<close> when the character is absent) and the
  regular expressions written inline in the source.
\<close>

fun str_includes :: "string \<Rightarrow> string \<Rightarrow> bool" where
  "str_includes [] sub = (sub = [])"
| "str_includes (c # cs) sub = (prefix sub (c # cs) \<or> str_includes cs sub)"

fun lastIndexOf :: "string \<Rightarrow> char \<Rightarrow> int" where
  "lastIndexOf [] c = - 1"
| "lastIndexOf (x # xs) c =
     (let r = lastIndexOf xs c in if 0 \<le> r then r + 1 else if x = c then 0 else - 1)"

definition endsWith :: "string \<Rightarrow> string \<Rightarrow> bool" where
  "endsWith s suf = (length suf \<le> length s \<and> drop (length s - length suf) s = suf)"

text \<open>\<open>rootPath.replace(/\/+$/, '')\<close>: the root path without its trailing slashes.\<close>

definition trimTrailingSlashes :: "string \<Rightarrow> string" where
  "trimTrailingSlashes s = rev (dropWhile (\<lambda>c. c = CHR ''/'') (rev s))"

text \<open>
  The source computes a parent directory in three places (the \<open>add\<close> listener,
  \<open>getConfigurationIfExists\<close> and \<open>init\<close>) with the same four lines:
  \<^verbatim>\<open>const pos = dir.lastIndexOf('/'); if (pos <= 0) { dir = ''; } else { dir = dir.substring(0, pos); }\<close>
\<close>

definition truncateAtLastSlash :: "string \<Rightarrow> string" where
  "truncateAtLastSlash dir =
     (let pos = lastIndexOf dir CHR ''/'' in if pos \<le> 0 then [] else take (nat pos) dir)"

text \<open>
  Modelled from the spec: \<open>toUnixPath\<close> of \<open>util\<close> is not among the sources; the
  spec describes paths as normalised to forward slashes, so every backslash becomes a
  slash.
\<close>

definition toUnixPath :: "string \<Rightarrow> string" where
  "toUnixPath p = map (\<lambda>c. if c = CHR 0x5C then CHR ''/'' else c) p"

text \<open>
  \<open>path.posix.basename\<close> and \<open>path.posix.extname\<close> of the Node.js library, which
  \<open>getConfigurationType\<close> calls: the base name is the last segment once trailing
  slashes are dropped; the extension starts at the last dot of the base name, and is
  empty when there is no dot, when the dot is the first character, or when the base
  name is \<open>..\<close>.
\<close>

definition posix_basename :: "string \<Rightarrow> string" where
  "posix_basename p =
     rev (takeWhile (\<lambda>c. c \<noteq> CHR ''/'') (dropWhile (\<lambda>c. c = CHR ''/'') (rev p)))"

definition posix_extname :: "string \<Rightarrow> string" where
  "posix_extname p =
     (let b = posix_basename p; i = lastIndexOf b CHR ''.''
      in if i \<le> 0 \<or> b = ''..'' then [] else drop (nat i) b)"

section \<open>Errors and the external collaborators\<close>

text \<open>
  Every \<open>throw\<close> of the source is a value of \<open>error\<close>: \<open>Uninitialized\<close> is
  \<open>new Error('project is uninitialized')\<close>, \<open>CannotParse\<close> the error of \<open>init\<close>
  (configuration path and parser message), \<open>ConfigNotFound\<close> the error of
  \<open>getConfiguration\<close>, and \<open>FetchError\<close> an error signalled by the file system
  updater.
\<close>

datatype error =
    Uninitialized
  | CannotParse string string
  | ConfigNotFound string
  | FetchError string

text \<open>
  The configuration object handed to the analyzer is either the literal built by the
  constructor for a fallback project (module kind CommonJS, no non-TS extensions,
  \<open>allowJs\<close> and the \<open>include\<close> globs) or the opaque result of parsing a file.
\<close>

datatype config_object =
    FallbackConfig (fb_allowJs: bool) (fb_include: "string list")
  | ParsedConfig string

record compiler_options =
  allowJs :: bool
  traceResolution :: bool
  otherOptions :: string

text \<open>
  A program of the analyzer is observed only through \<open>getSourceFile\<close>, so it is the
  list of the files it holds.
\<close>

datatype program = Program (sourceFiles: "string list")

definition getSourceFile :: "program \<Rightarrow> string \<Rightarrow> bool" where
  "getSourceFile p fileName = (fileName \<in> set (sourceFiles p))"

text \<open>
  Modelled from the spec: \<open>InMemoryFileSystem\<close> (\<open>memfs\<close>) is not among the sources;
  the spec describes it as a mapping from URI to content with an iteration over the
  known URIs, and \<open>add\<close> as the operation that populates it. Content may be
  undefined (a file known by name only).
\<close>

record in_memory_fs =
  fs_path :: string
  fs_files :: "(string \<times> string option) list"

definition fs_uris :: "in_memory_fs \<Rightarrow> string list" where
  "fs_uris fs = map fst (fs_files fs)"

definition fs_add :: "string \<Rightarrow> string option \<Rightarrow> in_memory_fs \<Rightarrow> in_memory_fs" where
  "fs_add uri content fs = fs\<lparr>fs_files := AList.update uri content (fs_files fs)\<rparr>"

text \<open>The host adapter (\<open>InMemoryLanguageServiceHost\<close>); \<open>fs\<close> and \<open>versions\<close> are
  shared with the project manager and live in its state.\<close>

record language_service_host =
  complete :: bool
  host_rootPath :: string
  host_options :: compiler_options
  filePaths :: "string list"
  projectVersion :: nat

text \<open>One call to the file system updater, and what it did: the \<open>add\<close> events the
  in-memory file system emitted while it ran, in order, and the error if it failed.\<close>

datatype fetch_call = EnsureStructure | Ensure string

record fetch_outcome =
  fo_added :: "(string \<times> string option) list"
  fo_error :: "error option"

text \<open>
  Everything the project manager imports and that is not among the sources is a field
  of \<open>env\<close>: the helpers of \<open>util\<close> (\<open>uri2path\<close>, \<open>path2uri\<close> and the file
  classifiers), the readers and change hooks of the in-memory file system, the
  TypeScript API (parsers, language service, pre-processor, resolvers), the \<open>win32\<close>
  flavour of Node's path module, the process's working directory, and the file system
  updater, whose outcome may depend on the calls made so far.
\<close>

record env =
  uri2path :: "string \<Rightarrow> string"
  path2uri :: "string \<Rightarrow> string"
  isJSTSFile :: "string \<Rightarrow> bool"
  isConfigFile :: "string \<Rightarrow> bool"
  isPackageJsonFile :: "string \<Rightarrow> bool"
  isGlobalTSFile :: "string \<Rightarrow> bool"
  isDeclarationFile :: "string \<Rightarrow> bool"
  vfs_readFile :: "in_memory_fs \<Rightarrow> string \<Rightarrow> string"
  vfs_getContent :: "in_memory_fs \<Rightarrow> string \<Rightarrow> string"
  vfs_didChange :: "string \<Rightarrow> string \<Rightarrow> in_memory_fs \<Rightarrow> in_memory_fs"
  vfs_didClose :: "string \<Rightarrow> in_memory_fs \<Rightarrow> in_memory_fs"
  vfs_didSave :: "string \<Rightarrow> in_memory_fs \<Rightarrow> in_memory_fs"
  parseConfigFileTextToJson :: "string \<Rightarrow> string \<Rightarrow> string + config_object"
  parseJsonConfigFileContent ::
    "config_object \<Rightarrow> in_memory_fs \<Rightarrow> string \<Rightarrow> string list \<times> compiler_options"
  ls_getProgram :: "language_service_host \<Rightarrow> in_memory_fs \<Rightarrow> program option"
  preProcessFile :: "string \<Rightarrow> string list \<times> string list \<times> string list"
  resolveModuleName ::
    "string \<Rightarrow> string \<Rightarrow> compiler_options \<Rightarrow> in_memory_fs \<Rightarrow> string option"
  resolveTypeReferenceDirective ::
    "string \<Rightarrow> string \<Rightarrow> compiler_options \<Rightarrow> in_memory_fs \<Rightarrow> string option"
  win32_resolve :: "string list \<Rightarrow> string"
  win32_dirname :: "string \<Rightarrow> string"
  process_cwd :: string
  updater :: "fetch_call list \<Rightarrow> in_memory_fs \<Rightarrow> fetch_call \<Rightarrow> fetch_outcome"

section \<open>The host adapter\<close>

text \<open>Class \<open>InMemoryLanguageServiceHost\<close> (\<open>src/unnamed/part_000\<close>, lines 545 to 676).\<close>

definition new_InMemoryLanguageServiceHost ::
  "string \<Rightarrow> compiler_options \<Rightarrow> language_service_host" where
  "new_InMemoryLanguageServiceHost rootPath options =
     \<lparr>complete = False, host_rootPath = rootPath, host_options = options,
      filePaths = [], projectVersion = 1\<rparr>"

definition incProjectVersion :: "language_service_host \<Rightarrow> language_service_host" where
  "incProjectVersion h = h\<lparr>projectVersion := projectVersion h + 1\<rparr>"

definition addFile :: "string \<Rightarrow> language_service_host \<Rightarrow> language_service_host" where
  "addFile filePath h = incProjectVersion (h\<lparr>filePaths := filePaths h @ [filePath]\<rparr>)"



section \<open>The project session (\<open>ProjectConfiguration\<close>)\<close>

text \<open>Class \<open>ProjectConfiguration\<close> (\<open>src/unnamed/part_000\<close>, lines 692 to 936).\<close>

datatype language_service = LanguageService

record project_configuration =
  pc_service :: "language_service option"
  pc_host :: "language_service_host option"
  configFilePath :: string
  configContent :: "config_object option"
  pc_traceModuleResolution :: bool
  rootFilePath :: string
  expectedFilePaths :: "string list"
  initialized :: bool
  ensuredBasicFiles :: bool
  pc_ensuredAllFiles :: bool

definition new_ProjectConfiguration ::
  "string \<Rightarrow> string \<Rightarrow> config_object option \<Rightarrow> bool \<Rightarrow> project_configuration" where
  "new_ProjectConfiguration rootFilePath' configFilePath' configContent' trace =
     \<lparr>pc_service = None, pc_host = None, configFilePath = configFilePath',
      configContent = configContent', pc_traceModuleResolution = trace,
      rootFilePath = rootFilePath', expectedFilePaths = [], initialized = False,
      ensuredBasicFiles = False, pc_ensuredAllFiles = False\<rparr>"

definition reset :: "project_configuration \<Rightarrow> project_configuration" where
  "reset c = c\<lparr>initialized := False, ensuredBasicFiles := False, pc_ensuredAllFiles := False,
               pc_service := None, pc_host := None, expectedFilePaths := []\<rparr>"

definition getService :: "project_configuration \<Rightarrow> error + language_service" where
  "getService c = (case pc_service c of None \<Rightarrow> Inl Uninitialized | Some s \<Rightarrow> Inr s)"

definition getHost :: "project_configuration \<Rightarrow> error + language_service_host" where
  "getHost c = (case pc_host c of None \<Rightarrow> Inl Uninitialized | Some h \<Rightarrow> Inr h)"

text \<open>
  \<open>getProgram\<close> is \<open>this.getService().getProgram()\<close>: the analyzer is asked only
  once \<open>getService\<close> has returned. The language service reads the project through the
  host it was created over, which is the session's \<open>host\<close> (\<open>init\<close> sets both and
  \<open>reset\<close> drops both), so its answer is a function of that host and of the file
  system. (\<open>traceSync\<close> only wraps the call in a tracing span.)
\<close>

definition getProgram ::
  "env \<Rightarrow> in_memory_fs \<Rightarrow> project_configuration \<Rightarrow> error + program option" where
  "getProgram e fs c =
     (case getService c of
        Inl err \<Rightarrow> Inl err
      | Inr s \<Rightarrow>
          (case pc_host c of
             None \<Rightarrow> Inr None
           | Some h \<Rightarrow> Inr (ls_getProgram e h fs)))"

text \<open>\<open>new Set(fileNames)\<close> keeps the first occurrence of each name, in order.\<close>

definition new_Set :: "string list \<Rightarrow> string list" where
  "new_Set xs = rev (remdups (rev xs))"

text \<open>\<open>/(^|\/)jsconfig\.json$/.test(configFilePath)\<close>\<close>

definition is_jsconfig :: "string \<Rightarrow> bool" where
  "is_jsconfig p = (p = ''jsconfig.json'' \<or> endsWith p ''/jsconfig.json'')"

definition init :: "env \<Rightarrow> in_memory_fs \<Rightarrow> project_configuration \<Rightarrow> error + project_configuration" where
  "init e fs c =
     (if initialized c then Inr c
      else
        (case (case configContent c of
                 None \<Rightarrow>
                   (case parseConfigFileTextToJson e (configFilePath c)
                           (vfs_readFile e fs (configFilePath c)) of
                      Inl msg \<Rightarrow> Inl (CannotParse (configFilePath c) msg)
                    | Inr obj \<Rightarrow> Inr obj)
               | Some obj \<Rightarrow> Inr obj) of
           Inl err \<Rightarrow> Inl err
         | Inr configObject \<Rightarrow>
             (let dir = truncateAtLastSlash (toUnixPath (configFilePath c));
                  base = (if dir \<noteq> [] then dir else fs_path fs);
                  configParseResult = parseJsonConfigFileContent e configObject fs base;
                  options = snd configParseResult;
                  options = (if is_jsconfig (configFilePath c)
                             then options\<lparr>allowJs := True\<rparr> else options);
                  options = (if pc_traceModuleResolution c
                             then options\<lparr>traceResolution := True\<rparr> else options)
              in Inr (c\<lparr>expectedFilePaths := new_Set (fst configParseResult),
                         pc_host := Some (new_InMemoryLanguageServiceHost (fs_path fs) options),
                         pc_service := Some LanguageService,
                         initialized := True\<rparr>))))"

definition ensureConfigFile ::
  "env \<Rightarrow> in_memory_fs \<Rightarrow> project_configuration \<Rightarrow> error + project_configuration" where
  "ensureConfigFile e fs c = init e fs c"

text \<open>
  The body shared by the three staging loops:
  \<^verbatim>\<open>const sourceFile = program.getSourceFile(fileName); if (!sourceFile) { this.getHost().addFile(fileName); }\<close>
\<close>

definition stage_if_missing ::
  "program \<Rightarrow> string \<Rightarrow> project_configuration \<Rightarrow> error + project_configuration" where
  "stage_if_missing prog fileName c =
     (if getSourceFile prog fileName then Inr c
      else (case getHost c of
              Inl err \<Rightarrow> Inl err
            | Inr h \<Rightarrow> Inr (c\<lparr>pc_host := Some (addFile fileName h)\<rparr>)))"

fun stage_each ::
  "program \<Rightarrow> string list \<Rightarrow> project_configuration \<Rightarrow> error + project_configuration" where
  "stage_each prog [] c = Inr c"
| "stage_each prog (f # fs) c =
     (case stage_if_missing prog f c of
        Inl err \<Rightarrow> Inl err
      | Inr c' \<Rightarrow> stage_each prog fs c')"

definition is_basic_file :: "env \<Rightarrow> project_configuration \<Rightarrow> string \<Rightarrow> bool" where
  "is_basic_file e c fileName =
     (isGlobalTSFile e fileName \<or>
      (isDeclarationFile e fileName \<and> toUnixPath fileName \<in> set (expectedFilePaths c)))"

definition ensureBasicFiles ::
  "env \<Rightarrow> in_memory_fs \<Rightarrow> project_configuration \<Rightarrow> error + project_configuration" where
  "ensureBasicFiles e fs c =
     (if ensuredBasicFiles c then Inr c
      else
        (case init e fs c of
           Inl err \<Rightarrow> Inl err
         | Inr c1 \<Rightarrow>
             (case getProgram e fs c1 of
                Inl err \<Rightarrow> Inl err
              | Inr None \<Rightarrow> Inr c1
              | Inr (Some prog) \<Rightarrow>
                  (case stage_each prog
                          (filter (is_basic_file e c1) (map (uri2path e) (fs_uris fs))) c1 of
                     Inl err \<Rightarrow> Inl err
                   | Inr c2 \<Rightarrow> Inr (c2\<lparr>ensuredBasicFiles := True\<rparr>)))))"

definition ensureSourceFile ::
  "env \<Rightarrow> in_memory_fs \<Rightarrow> string \<Rightarrow> project_configuration \<Rightarrow> error + project_configuration" where
  "ensureSourceFile e fs filePath c =
     (case getProgram e fs c of
        Inl err \<Rightarrow> Inl err
      | Inr None \<Rightarrow> Inr c
      | Inr (Some prog) \<Rightarrow> stage_if_missing prog filePath c)"

definition ensureAllFiles ::
  "env \<Rightarrow> in_memory_fs \<Rightarrow> project_configuration \<Rightarrow> error + project_configuration" where
  "ensureAllFiles e fs c =
     (if pc_ensuredAllFiles c then Inr c
      else
        (case init e fs c of
           Inl err \<Rightarrow> Inl err
         | Inr c1 \<Rightarrow>
             (case getHost c1 of
                Inl err \<Rightarrow> Inl err
              | Inr h \<Rightarrow>
                  if complete h then Inr c1
                  else
                    (case getProgram e fs c1 of
                       Inl err \<Rightarrow> Inl err
                     | Inr None \<Rightarrow> Inr c1
                     | Inr (Some prog) \<Rightarrow>
                         (case stage_each prog (expectedFilePaths c1) c1 of
                            Inl err \<Rightarrow> Inl err
                          | Inr c2 \<Rightarrow>
                              (case getHost c2 of
                                 Inl err \<Rightarrow> Inl err
                               | Inr h2 \<Rightarrow>
                                   Inr (c2\<lparr>pc_host := Some (h2\<lparr>complete := True\<rparr>),
                                           pc_ensuredAllFiles := True\<rparr>)))))))"

section \<open>The project router (\<open>ProjectManager\<close>)\<close>

text \<open>Class \<open>ProjectManager\<close> (\<open>src/unnamed/part_000\<close>): its constructor and the
  \<open>add\<close> listener (lines 103 to 178), \<open>getConfiguration\<close> and
  \<open>getConfigurationIfExists\<close> (lines 412 to 445), \<open>getConfigurationType\<close> (lines 524
  to 536).\<close>

datatype config_type = Js | Ts

text \<open>The four memoized pipelines; a referenced-files pipeline belongs to one URI.\<close>

datatype pipeline = ModuleStructure | OwnFiles | AllFiles | ReferencedFiles string

text \<open>
  An observable built with \<open>publishReplay().refCount()\<close>: the pipeline it connects to
  at its first subscription, and what it replays afterwards (the values it emitted and
  the error it ended with, if any); \<open>None\<close> while it has not been connected.
\<close>

record observable =
  ob_pipeline :: pipeline
  ob_replay :: "(string list \<times> error option) option"

text \<open>
  The state of a project manager. \<open>ProjectConfiguration\<close> and observable objects are
  held in stores (\<open>objects\<close>, \<open>observables\<close>) and named by their address, so that
  the identity test of the \<open>add\<close> listener and the memoized slots compare
  references, as the source does. \<open>fallbackConfigs_js\<close> and \<open>fallbackConfigs_ts\<close>
  are the constructor's local \<open>fallbackConfigs\<close>, which the listener closes over.
  \<open>updater_log\<close> records the calls made to the file system updater.
\<close>

record project_manager =
  rootPath :: string
  configs_js :: "(string \<times> nat) list"
  configs_ts :: "(string \<times> nat) list"
  inMemoryFs :: in_memory_fs
  versions :: "string \<rightharpoonup> nat"
  traceModuleResolution :: bool
  ensuredModuleStructure :: "nat option"
  ensuredAllFiles :: "nat option"
  ensuredOwnFiles :: "nat option"
  referencedFiles :: "(string \<times> nat) list"
  fallbackConfigs_js :: nat
  fallbackConfigs_ts :: nat
  objects :: "nat \<Rightarrow> project_configuration"
  next_object :: nat
  observables :: "nat \<Rightarrow> observable"
  next_observable :: nat
  updater_log :: "fetch_call list"

definition configs :: "config_type \<Rightarrow> project_manager \<Rightarrow> (string \<times> nat) list" where
  "configs t pm = (case t of Js \<Rightarrow> configs_js pm | Ts \<Rightarrow> configs_ts pm)"

definition set_configs ::
  "config_type \<Rightarrow> (string \<times> nat) list \<Rightarrow> project_manager \<Rightarrow> project_manager" where
  "set_configs t m pm = (case t of Js \<Rightarrow> pm\<lparr>configs_js := m\<rparr> | Ts \<Rightarrow> pm\<lparr>configs_ts := m\<rparr>)"

definition fallbackConfigs :: "config_type \<Rightarrow> project_manager \<Rightarrow> nat" where
  "fallbackConfigs t pm = (case t of Js \<Rightarrow> fallbackConfigs_js pm | Ts \<Rightarrow> fallbackConfigs_ts pm)"

definition fallback_config :: "config_type \<Rightarrow> config_object" where
  "fallback_config t =
     FallbackConfig (t = Js)
       (case t of Js \<Rightarrow> [''**/*.js'', ''**/*.jsx''] | Ts \<Rightarrow> [''**/*.ts'', ''**/*.tsx''])"

definition new_ProjectManager :: "string \<Rightarrow> in_memory_fs \<Rightarrow> bool \<Rightarrow> project_manager" where
  "new_ProjectManager rootPath' inMemoryFileSystem trace =
     (let trimmedRootPath = trimTrailingSlashes rootPath';
          fallback = (\<lambda>t. new_ProjectConfiguration trimmedRootPath []
                              (Some (fallback_config t)) trace)
      in \<lparr>rootPath = rootPath',
          configs_js = [(trimmedRootPath, 0)],
          configs_ts = [(trimmedRootPath, 1)],
          inMemoryFs = inMemoryFileSystem,
          versions = Map.empty,
          traceModuleResolution = trace,
          ensuredModuleStructure = None,
          ensuredAllFiles = None,
          ensuredOwnFiles = None,
          referencedFiles = [],
          fallbackConfigs_js = 0,
          fallbackConfigs_ts = 1,
          objects = (\<lambda>_. new_ProjectConfiguration [] [] None False)
                      (0 := fallback Js, 1 := fallback Ts),
          next_object = 2,
          observables = (\<lambda>_. \<lparr>ob_pipeline = ModuleStructure, ob_replay = None\<rparr>),
          next_observable = 0,
          updater_log = []\<rparr>)"

definition getConfigurationType :: "string \<Rightarrow> config_type" where
  "getConfigurationType filePath =
     (let name = posix_basename filePath in
      if name = ''tsconfig.json'' then Ts
      else if name = ''jsconfig.json'' then Js
      else (let extension = posix_extname filePath in
            if extension = ''.js'' \<or> extension = ''.jsx'' then Js else Ts))"

text \<open>\<open>/\/[tj]sconfig\.json/.test(uri)\<close>: the pattern is not anchored, it matches
  anywhere in the URI.\<close>

definition matches_config_pattern :: "string \<Rightarrow> bool" where
  "matches_config_pattern uri =
     (str_includes uri ''/tsconfig.json'' \<or> str_includes uri ''/jsconfig.json'')"

text \<open>The filter of the \<open>add\<close> listener; \<open>!!content\<close> holds for a defined, non-empty
  string.\<close>

definition add_filter :: "string \<times> string option \<Rightarrow> bool" where
  "add_filter ev =
     ((snd ev \<noteq> None \<and> snd ev \<noteq> Some []) \<and> matches_config_pattern (fst ev) \<and>
      \<not> str_includes (fst ev) ''/node_modules/'')"

definition on_add :: "env \<Rightarrow> string \<times> string option \<Rightarrow> project_manager \<Rightarrow> project_manager" where
  "on_add e ev pm =
     (if add_filter ev then
        (let filePath = uri2path e (fst ev);
             dir = truncateAtLastSlash (toUnixPath filePath);
             configType = getConfigurationType filePath;
             trimmedRootPath = trimTrailingSlashes (rootPath pm);
             r = next_object pm;
             pm1 = pm\<lparr>objects := (objects pm)
                          (r := new_ProjectConfiguration dir filePath None
                                  (traceModuleResolution pm)),
                      next_object := r + 1\<rparr>;
             pm2 = set_configs configType (AList.update dir r (configs configType pm1)) pm1
         in if map_of (configs configType pm2) trimmedRootPath
                 = Some (fallbackConfigs configType pm2)
            then set_configs configType
                   (AList.delete trimmedRootPath (configs configType pm2)) pm2
            else pm2)
      else pm)"

text \<open>\<open>configurations()\<close>: the values of the \<open>js\<close> map, then those of the \<open>ts\<close> map.\<close>

definition configurations :: "project_manager \<Rightarrow> nat list" where
  "configurations pm = map snd (configs_js pm) @ map snd (configs_ts pm)"

text \<open>The loop of \<open>getConfigurationIfExists\<close>; each round shortens \<open>dir\<close>.\<close>

function walk_up :: "(string \<times> nat) list \<Rightarrow> string \<Rightarrow> string \<Rightarrow> nat option" where
  "walk_up cfgs root dir =
     (if dir \<noteq> [] \<and> dir \<noteq> root then
        (case map_of cfgs dir of
           Some c \<Rightarrow> Some c
         | None \<Rightarrow> walk_up cfgs root (truncateAtLastSlash dir))
      else map_of cfgs root)"
  by pat_completeness auto
termination
proof (relation "measure (\<lambda>(cfgs, root, dir). length dir)")
  show "wf (measure (\<lambda>(cfgs, root, dir). length dir))"
    by simp
next
  fix cfgs :: "(string \<times> nat) list" and root dir :: string
  assume "dir \<noteq> [] \<and> dir \<noteq> root"
  have "lastIndexOf s c < int (length s)" for s c
    by (induction s) (auto simp: Let_def)
  from this [of dir "CHR ''/''"] \<open>dir \<noteq> [] \<and> dir \<noteq> root\<close>
  show "((cfgs, root, truncateAtLastSlash dir), (cfgs, root, dir))
          \<in> measure (\<lambda>(cfgs, root, dir). length dir)"
    by (auto simp: truncateAtLastSlash_def Let_def)
qed

declare walk_up.simps [simp del]



definition getConfigurationIfExists ::
  "string \<Rightarrow> config_type \<Rightarrow> project_manager \<Rightarrow> nat option" where
  "getConfigurationIfExists filePath configType pm =
     walk_up (configs configType pm) (trimTrailingSlashes (rootPath pm)) (toUnixPath filePath)"

definition getConfiguration ::
  "string \<Rightarrow> config_type \<Rightarrow> project_manager \<Rightarrow> error + nat" where
  "getConfiguration filePath configType pm =
     (case getConfigurationIfExists filePath configType pm of
        None \<Rightarrow> Inl (ConfigNotFound filePath)
      | Some c \<Rightarrow> Inr c)"

section \<open>Change intake\<close>

text \<open>\<open>didOpen\<close>, \<open>didClose\<close>, \<open>didChange\<close> and \<open>didSave\<close> of \<open>ProjectManager\<close> (lines
  472 to 518).\<close>

text \<open>
  The change operations write the file system and the version map before they look
  for the owning session, so the state they leave is returned with the error when a
  later step throws.
\<close>

definition store_object ::
  "nat \<Rightarrow> project_configuration \<Rightarrow> project_manager \<Rightarrow> project_manager" where
  "store_object r c pm = pm\<lparr>objects := (objects pm)(r := c)\<rparr>"






section \<open>Node's \<open>path.posix\<close>\<close>

text \<open>
  The functions of Node's \<open>path.posix\<close> that the resolver of triple-slash references
  calls, \<open>dirname\<close> and \<open>resolve\<close>, and \<open>join\<close> for comparison. \<open>resolve\<close> reads
  its arguments from the right and stops at the first absolute one (the working
  directory comes last); \<open>join\<close> concatenates all of them. Both normalise the result:
  empty and \<open>.\<close> segments are dropped and \<open>..\<close> removes the segment before it.
\<close>

fun split_slash :: "string \<Rightarrow> string list" where
  "split_slash [] = [[]]"
| "split_slash (c # cs) =
     (if c = CHR ''/'' then [] # split_slash cs
      else (case split_slash cs of [] \<Rightarrow> [[c]] | seg # segs \<Rightarrow> (c # seg) # segs))"

fun join_slash :: "string list \<Rightarrow> string" where
  "join_slash [] = []"
| "join_slash [seg] = seg"
| "join_slash (seg # segs) = seg @ ''/'' @ join_slash segs"

text \<open>The segments kept so far are held in reverse.\<close>

fun normalize_segments :: "bool \<Rightarrow> string list \<Rightarrow> string list \<Rightarrow> string list" where
  "normalize_segments allowAboveRoot acc [] = rev acc"
| "normalize_segments allowAboveRoot acc (seg # segs) =
     (if seg = [] \<or> seg = ''.'' then normalize_segments allowAboveRoot acc segs
      else if seg = ''..'' then
        (case acc of
           [] \<Rightarrow> normalize_segments allowAboveRoot
                   (if allowAboveRoot then [''..''] else []) segs
         | a # as \<Rightarrow>
             if a = ''..'' then normalize_segments allowAboveRoot (''..'' # acc) segs
             else normalize_segments allowAboveRoot as segs)
      else normalize_segments allowAboveRoot (seg # acc) segs)"

definition normalizeStringPosix :: "string \<Rightarrow> bool \<Rightarrow> string" where
  "normalizeStringPosix p allowAboveRoot =
     join_slash (normalize_segments allowAboveRoot [] (split_slash p))"

definition isAbsolute :: "string \<Rightarrow> bool" where
  "isAbsolute p = (case p of [] \<Rightarrow> False | c # _ \<Rightarrow> c = CHR ''/'')"

definition posix_dirname :: "string \<Rightarrow> string" where
  "posix_dirname p =
     (if p = [] then ''.''
      else
        (let hasRoot = isAbsolute p;
             r = dropWhile (\<lambda>c. c \<noteq> CHR ''/'')
                   (dropWhile (\<lambda>c. c = CHR ''/'') (rev (tl p)));
             end = length r
         in if r = [] then (if hasRoot then ''/'' else ''.'')
            else if hasRoot \<and> end = 1 then ''//''
            else take end p))"

fun resolve_loop :: "string list \<Rightarrow> string \<Rightarrow> string \<times> bool" where
  "resolve_loop [] resolvedPath = (resolvedPath, False)"
| "resolve_loop (p # ps) resolvedPath =
     (if p = [] then resolve_loop ps resolvedPath
      else if isAbsolute p then (p @ ''/'' @ resolvedPath, True)
      else resolve_loop ps (p @ ''/'' @ resolvedPath))"

definition posix_resolve :: "string \<Rightarrow> string list \<Rightarrow> string" where
  "posix_resolve cwd args =
     (case resolve_loop (rev args @ [cwd]) [] of
        (resolvedPath, resolvedAbsolute) \<Rightarrow>
          (let n = normalizeStringPosix resolvedPath (\<not> resolvedAbsolute) in
           if resolvedAbsolute then (if n \<noteq> [] then ''/'' @ n else ''/'')
           else if n \<noteq> [] then n else ''.''))"

definition posix_normalize :: "string \<Rightarrow> string" where
  "posix_normalize p =
     (if p = [] then ''.''
      else
        (let n = normalizeStringPosix p (\<not> isAbsolute p);
             n = (if n = [] \<and> \<not> isAbsolute p then ''.'' else n);
             n = (if n \<noteq> [] \<and> last p = CHR ''/'' then n @ ''/'' else n)
         in if isAbsolute p then ''/'' @ n else n))"

definition posix_join :: "string list \<Rightarrow> string" where
  "posix_join args =
     (let joined = join_slash (filter (\<lambda>a. a \<noteq> []) args) in
      if joined = [] then ''.'' else posix_normalize joined)"

section \<open>Materialization pipelines\<close>

text \<open>\<open>ensureModuleStructure\<close>, \<open>invalidateModuleStructure\<close>, \<open>ensureOwnFiles\<close> and
  \<open>ensureAllFiles\<close> of \<open>ProjectManager\<close> (lines 224 to 300).\<close>

text \<open>
  An observable is run to its end at its first subscription, each fetch completing when
  it is requested (the order of events when the updater answers at once).
  \<open>traceObservable\<close> only wraps the pipeline in a tracing span.

  A call to the updater is logged; the \<open>add\<close> events the in-memory file system emits
  while the call runs reach the listener the constructor subscribed.
\<close>

definition vfs_add :: "env \<Rightarrow> string \<times> string option \<Rightarrow> project_manager \<Rightarrow> project_manager" where
  "vfs_add e ev pm = on_add e ev (pm\<lparr>inMemoryFs := fs_add (fst ev) (snd ev) (inMemoryFs pm)\<rparr>)"

definition fetch :: "env \<Rightarrow> fetch_call \<Rightarrow> project_manager \<Rightarrow> error option \<times> project_manager" where
  "fetch e call pm =
     (let out = updater e (updater_log pm) (inMemoryFs pm) call;
          pm1 = pm\<lparr>updater_log := updater_log pm @ [call]\<rparr>
      in (fo_error out, fold (vfs_add e) (fo_added out) pm1))"

text \<open>\<open>.mergeMap(uri => this.updater.ensure(uri))\<close>; the first error ends the stream.\<close>

fun fetch_each :: "env \<Rightarrow> string list \<Rightarrow> project_manager \<Rightarrow> error option \<times> project_manager" where
  "fetch_each e [] pm = (None, pm)"
| "fetch_each e (u # us) pm =
     (case fetch e (Ensure u) pm of
        (Some err, pm1) \<Rightarrow> (Some err, pm1)
      | (None, pm1) \<Rightarrow> fetch_each e us pm1)"

definition moduleStructure_filter :: "env \<Rightarrow> string \<Rightarrow> bool" where
  "moduleStructure_filter e uri =
     (isGlobalTSFile e uri \<or> isConfigFile e uri \<or> isPackageJsonFile e uri)"

text \<open>In JavaScript \<open>&&\<close> binds tighter than \<open>||\<close>:
  \<^verbatim>\<open>!uri.includes('/node_modules/') && isJSTSFile(uri) || isConfigFile(uri) || isPackageJsonFile(uri)\<close>\<close>

definition ownFiles_filter :: "env \<Rightarrow> string \<Rightarrow> bool" where
  "ownFiles_filter e uri =
     ((\<not> str_includes uri ''/node_modules/'' \<and> isJSTSFile e uri) \<or>
      isConfigFile e uri \<or> isPackageJsonFile e uri)"

definition allFiles_filter :: "env \<Rightarrow> string \<Rightarrow> bool" where
  "allFiles_filter e uri = (isJSTSFile e uri \<or> isConfigFile e uri \<or> isPackageJsonFile e uri)"

text \<open>The memoized slot of a pipeline: one of the three fields, or the entry of the
  referenced-files map.\<close>

definition slot :: "pipeline \<Rightarrow> project_manager \<Rightarrow> nat option" where
  "slot p pm =
     (case p of
        ModuleStructure \<Rightarrow> ensuredModuleStructure pm
      | OwnFiles \<Rightarrow> ensuredOwnFiles pm
      | AllFiles \<Rightarrow> ensuredAllFiles pm
      | ReferencedFiles uri \<Rightarrow> map_of (referencedFiles pm) uri)"

definition set_slot :: "pipeline \<Rightarrow> nat \<Rightarrow> project_manager \<Rightarrow> project_manager" where
  "set_slot p ob pm =
     (case p of
        ModuleStructure \<Rightarrow> pm\<lparr>ensuredModuleStructure := Some ob\<rparr>
      | OwnFiles \<Rightarrow> pm\<lparr>ensuredOwnFiles := Some ob\<rparr>
      | AllFiles \<Rightarrow> pm\<lparr>ensuredAllFiles := Some ob\<rparr>
      | ReferencedFiles uri \<Rightarrow> pm\<lparr>referencedFiles := AList.update uri ob (referencedFiles pm)\<rparr>)"

text \<open>The error callback of \<open>.do(noop, err => ...)\<close>.\<close>

definition clear_slot :: "pipeline \<Rightarrow> project_manager \<Rightarrow> project_manager" where
  "clear_slot p pm =
     (case p of
        ModuleStructure \<Rightarrow> pm\<lparr>ensuredModuleStructure := None\<rparr>
      | OwnFiles \<Rightarrow> pm\<lparr>ensuredOwnFiles := None\<rparr>
      | AllFiles \<Rightarrow> pm\<lparr>ensuredAllFiles := None\<rparr>
      | ReferencedFiles uri \<Rightarrow> pm\<lparr>referencedFiles := AList.delete uri (referencedFiles pm)\<rparr>)"

text \<open>\<open>invalidateReferencedFiles(uri?)\<close>: \<open>if (uri)\<close> fails for an absent and for an
  empty URI.\<close>

definition invalidateReferencedFiles :: "string option \<Rightarrow> project_manager \<Rightarrow> project_manager" where
  "invalidateReferencedFiles uri pm =
     (case uri of
        None \<Rightarrow> pm\<lparr>referencedFiles := []\<rparr>
      | Some u \<Rightarrow>
          if u = [] then pm\<lparr>referencedFiles := []\<rparr>
          else pm\<lparr>referencedFiles := AList.delete u (referencedFiles pm)\<rparr>)"


text \<open>The completion callback of \<open>ensureModuleStructure\<close>.\<close>

definition reset_all :: "project_manager \<Rightarrow> project_manager" where
  "reset_all pm =
     pm\<lparr>objects := fold (\<lambda>r h. h(r := reset (h r))) (configurations pm) (objects pm)\<rparr>"

definition on_complete :: "pipeline \<Rightarrow> project_manager \<Rightarrow> project_manager" where
  "on_complete p pm =
     (case p of
        ModuleStructure \<Rightarrow> invalidateReferencedFiles None (reset_all pm)
      | _ \<Rightarrow> pm)"

definition pipeline_filter :: "env \<Rightarrow> pipeline \<Rightarrow> string \<Rightarrow> bool" where
  "pipeline_filter e p =
     (case p of
        ModuleStructure \<Rightarrow> moduleStructure_filter e
      | OwnFiles \<Rightarrow> ownFiles_filter e
      | AllFiles \<Rightarrow> allFiles_filter e
      | ReferencedFiles uri \<Rightarrow> (\<lambda>_. False))"

text \<open>
  The three ensure pipelines have one shape: the structure fetch, then the URIs of the
  file system read once the structure is there (\<open>Observable.defer\<close>), filtered, each
  fetched; the error callback clears the slot before the error goes on to
  \<open>publishReplay\<close> and the subscribers.
\<close>

definition run_ensure ::
  "env \<Rightarrow> pipeline \<Rightarrow> project_manager \<Rightarrow> (string list \<times> error option) \<times> project_manager" where
  "run_ensure e p pm =
     (case fetch e EnsureStructure pm of
        (Some err, pm1) \<Rightarrow> (([], Some err), clear_slot p pm1)
      | (None, pm1) \<Rightarrow>
          (case fetch_each e (filter (pipeline_filter e p) (fs_uris (inMemoryFs pm1))) pm1 of
             (Some err, pm2) \<Rightarrow> (([], Some err), clear_slot p pm2)
           | (None, pm2) \<Rightarrow> (([], None), on_complete p pm2)))"

section \<open>The referenced-files resolver\<close>

text \<open>\<open>ensureReferencedFiles\<close>, \<open>invalidateReferencedFiles\<close> and
  \<open>resolveReferencedFiles\<close> of \<open>ProjectManager\<close> (lines 319 to 406).\<close>

definition resolve_path_reference :: "env \<Rightarrow> string \<Rightarrow> string \<Rightarrow> string \<Rightarrow> string" where
  "resolve_path_reference e rootPath' referencingFilePath fileName =
     (if str_includes referencingFilePath [CHR 0x5C]
      then win32_resolve e
             [rootPath', win32_dirname e referencingFilePath, toUnixPath fileName]
      else posix_resolve (process_cwd e)
             [rootPath', posix_dirname referencingFilePath, toUnixPath fileName])"

definition referenced_paths ::
  "env \<Rightarrow> project_manager \<Rightarrow> string \<Rightarrow> compiler_options \<Rightarrow> string \<Rightarrow> string list" where
  "referenced_paths e pm referencingFilePath compilerOpt contents =
     (case preProcessFile e contents of
        (importedFiles, referencedFiles', typeReferenceDirectives) \<Rightarrow>
          List.map_filter
            (\<lambda>importedFile. resolveModuleName e importedFile (toUnixPath referencingFilePath)
                               compilerOpt (inMemoryFs pm))
            importedFiles
          @ map (resolve_path_reference e (rootPath pm) referencingFilePath) referencedFiles'
          @ List.map_filter
              (\<lambda>directive. resolveTypeReferenceDirective e directive referencingFilePath
                              compilerOpt (inMemoryFs pm))
              typeReferenceDirectives)"

definition run_referenced ::
  "env \<Rightarrow> string \<Rightarrow> project_manager \<Rightarrow> (string list \<times> error option) \<times> project_manager" where
  "run_referenced e uri pm =
     (case fetch e (Ensure uri) pm of
        (Some err, pm1) \<Rightarrow> (([], Some err), clear_slot (ReferencedFiles uri) pm1)
      | (None, pm1) \<Rightarrow>
          (let referencingFilePath = uri2path e uri in
           case getConfiguration referencingFilePath
                  (getConfigurationType referencingFilePath) pm1 of
             Inl err \<Rightarrow> (([], Some err), clear_slot (ReferencedFiles uri) pm1)
           | Inr r \<Rightarrow>
               (case ensureBasicFiles e (inMemoryFs pm1) (objects pm1 r) of
                  Inl err \<Rightarrow> (([], Some err), clear_slot (ReferencedFiles uri) pm1)
                | Inr c \<Rightarrow>
                    (let pm2 = store_object r c pm1;
                         contents = vfs_getContent e (inMemoryFs pm2) uri
                     in case getHost c of
                          Inl err \<Rightarrow> (([], Some err), clear_slot (ReferencedFiles uri) pm2)
                        | Inr h \<Rightarrow>
                            ((map (path2uri e)
                                (referenced_paths e pm2 referencingFilePath
                                   (host_options h) contents), None), pm2)))))"

definition run_pipeline ::
  "env \<Rightarrow> pipeline \<Rightarrow> project_manager \<Rightarrow> (string list \<times> error option) \<times> project_manager" where
  "run_pipeline e p pm =
     (case p of ReferencedFiles uri \<Rightarrow> run_referenced e uri pm | _ \<Rightarrow> run_ensure e p pm)"

text \<open>
  \<open>if (!this.ensuredX) { this.ensuredX = <pipeline>.publishReplay().refCount(); } return this.ensuredX;\<close>
  and the same around the referenced-files map: a fresh observable is created and
  stored only when the slot is empty.
\<close>

definition memoized :: "pipeline \<Rightarrow> project_manager \<Rightarrow> nat \<times> project_manager" where
  "memoized p pm =
     (case slot p pm of
        Some ob \<Rightarrow> (ob, pm)
      | None \<Rightarrow>
          (let ob = next_observable pm in
           (ob, set_slot p ob
                  (pm\<lparr>observables := (observables pm)
                         (ob := \<lparr>ob_pipeline = p, ob_replay = None\<rparr>),
                       next_observable := ob + 1\<rparr>))))"

definition ensureModuleStructure :: "project_manager \<Rightarrow> nat \<times> project_manager" where
  "ensureModuleStructure pm = memoized ModuleStructure pm"

definition ensureOwnFiles :: "project_manager \<Rightarrow> nat \<times> project_manager" where
  "ensureOwnFiles pm = memoized OwnFiles pm"

definition pm_ensureAllFiles :: "project_manager \<Rightarrow> nat \<times> project_manager" where
  "pm_ensureAllFiles pm = memoized AllFiles pm"

definition resolveReferencedFiles :: "string \<Rightarrow> project_manager \<Rightarrow> nat \<times> project_manager" where
  "resolveReferencedFiles uri pm = memoized (ReferencedFiles uri) pm"

text \<open>Subscribing connects an observable that has not run yet, and replays one that has.\<close>

definition subscribe ::
  "env \<Rightarrow> nat \<Rightarrow> project_manager \<Rightarrow> (string list \<times> error option) \<times> project_manager" where
  "subscribe e ob pm =
     (case ob_replay (observables pm ob) of
        Some r \<Rightarrow> (r, pm)
      | None \<Rightarrow>
          (case run_pipeline e (ob_pipeline (observables pm ob)) pm of
             (r, pm1) \<Rightarrow>
               (r, pm1\<lparr>observables := (observables pm1)
                         (ob := (observables pm1 ob)\<lparr>ob_replay := Some r\<rparr>)\<rparr>)))"

text \<open>
  \<open>ensureReferencedFiles\<close>. The set \<open>ignore\<close> is one object shared by the whole
  recursion, so it is threaded through the calls; \<open>calls\<close> is not in the source: it
  logs the URI of every call, to state how often a URI is visited. The depth is a
  natural number (the default is 30).
\<close>

record walk =
  ignore :: "string set"
  calls :: "string list"

function ensureReferencedFiles ::
    "env \<Rightarrow> string \<Rightarrow> nat \<Rightarrow> walk \<times> project_manager
       \<Rightarrow> (string list \<times> error option) \<times> walk \<times> project_manager"
  and recurse_each ::
    "env \<Rightarrow> nat \<Rightarrow> string list \<Rightarrow> walk \<times> project_manager
       \<Rightarrow> string list \<times> walk \<times> project_manager"
where
  "ensureReferencedFiles e uri maxDepth (w, pm) =
     (let w1 = w\<lparr>ignore := insert uri (ignore w), calls := calls w @ [uri]\<rparr> in
      case ensureModuleStructure pm of
        (ob, pm1) \<Rightarrow>
          (case subscribe e ob pm1 of
             ((_, Some err), pm2) \<Rightarrow> (([], Some err), w1, pm2)
           | ((_, None), pm2) \<Rightarrow>
               (case maxDepth of
                  0 \<Rightarrow> (([], None), w1, pm2)
                | Suc d \<Rightarrow>
                    (case resolveReferencedFiles uri pm2 of
                       (ob2, pm3) \<Rightarrow>
                         (case subscribe e ob2 pm3 of
                            ((referenced, err), pm4) \<Rightarrow>
                              (case recurse_each e d referenced (w1, pm4) of
                                 (emitted, w2, pm5) \<Rightarrow> ((emitted, err), w2, pm5)))))))"
| "recurse_each e d [] s = ([], s)"
| "recurse_each e d (referencedUri # rest) (w, pm) =
     (if referencedUri \<in> ignore w then recurse_each e d rest (w, pm)
      else
        (case ensureReferencedFiles e referencedUri d (w, pm) of
           ((emitted, _), w1, pm1) \<Rightarrow>
             (case recurse_each e d rest (w1, pm1) of
                (emitted', s2) \<Rightarrow> (emitted @ emitted', s2))))"
  by pat_completeness auto
termination
  by (relation "inv_image (less_than <*lex*> less_than)
        (\<lambda>x. case x of
               Inl (e, uri, maxDepth, s) \<Rightarrow> (maxDepth, 0)
             | Inr (e, d, uris, s) \<Rightarrow> (d, Suc (length uris)))")
     auto

declare ensureReferencedFiles.simps [simp del]

section \<open>A concrete environment\<close>

text \<open>
  Modelled from the spec: the classifiers of \<open>util\<close> are not among the sources. The
  spec classifies by file name: a JS/TS source file by its extension, a configuration
  file as \<open>tsconfig.json\<close> or \<open>jsconfig.json\<close> anywhere, a package file as
  \<open>package.json\<close>, a declaration file as one ending in \<open>.d.\<close> and a TypeScript
  extension, and a global file as a declaration file directly under the workspace root.
\<close>

definition spec_isJSTSFile :: "string \<Rightarrow> bool" where
  "spec_isJSTSFile p =
     (endsWith p ''.js'' \<or> endsWith p ''.jsx'' \<or> endsWith p ''.ts'' \<or> endsWith p ''.tsx'')"

definition spec_isConfigFile :: "string \<Rightarrow> bool" where
  "spec_isConfigFile p =
     (p = ''tsconfig.json'' \<or> p = ''jsconfig.json'' \<or>
      endsWith p ''/tsconfig.json'' \<or> endsWith p ''/jsconfig.json'')"

definition spec_isPackageJsonFile :: "string \<Rightarrow> bool" where
  "spec_isPackageJsonFile p = (p = ''package.json'' \<or> endsWith p ''/package.json'')"

definition spec_isDeclarationFile :: "string \<Rightarrow> bool" where
  "spec_isDeclarationFile p = (endsWith p ''.d.ts'' \<or> endsWith p ''.d.tsx'')"

definition spec_isGlobalTSFile :: "string \<Rightarrow> string \<Rightarrow> bool" where
  "spec_isGlobalTSFile root p = (spec_isDeclarationFile p \<and> truncateAtLastSlash p = root)"

text \<open>
  The environment of the examples: a workspace at \<open>/root\<close> with \<open>file://\<close> URIs, an
  updater that fetches nothing and never fails, an analyzer whose program holds the
  files staged in the host, and a pre-processor that reads the content of a file as
  the one module it imports, resolved to itself.
\<close>

definition demo_uri2path :: "string \<Rightarrow> string" where
  "demo_uri2path uri = (if prefix ''file://'' uri then drop 7 uri else uri)"

definition demo_content :: "in_memory_fs \<Rightarrow> string \<Rightarrow> string" where
  "demo_content fs uri = (case map_of (fs_files fs) uri of Some (Some c) \<Rightarrow> c | _ \<Rightarrow> [])"

definition demo_env :: env where
  "demo_env =
     \<lparr>uri2path = demo_uri2path,
      path2uri = (\<lambda>p. ''file://'' @ p),
      isJSTSFile = spec_isJSTSFile,
      isConfigFile = spec_isConfigFile,
      isPackageJsonFile = spec_isPackageJsonFile,
      isGlobalTSFile = (\<lambda>p. spec_isGlobalTSFile ''/root'' (demo_uri2path p)),
      isDeclarationFile = spec_isDeclarationFile,
      vfs_readFile = (\<lambda>fs p. demo_content fs (''file://'' @ p)),
      vfs_getContent = demo_content,
      vfs_didChange = (\<lambda>uri text. fs_add uri (Some text)),
      vfs_didClose = (\<lambda>uri fs. fs),
      vfs_didSave = (\<lambda>uri fs. fs),
      parseConfigFileTextToJson = (\<lambda>fileName text. Inr (ParsedConfig text)),
      parseJsonConfigFileContent =
        (\<lambda>obj fs base. ([], \<lparr>allowJs = False, traceResolution = False, otherOptions = []\<rparr>)),
      ls_getProgram = (\<lambda>h fs. Some (Program (filePaths h))),
      preProcessFile = (\<lambda>contents. if contents = [] then ([], [], []) else ([contents], [], [])),
      resolveModuleName = (\<lambda>name containingFile options fs. Some name),
      resolveTypeReferenceDirective = (\<lambda>name containingFile options fs. None),
      win32_resolve = (\<lambda>args. concat args),
      win32_dirname = (\<lambda>p. p),
      process_cwd = ''/'',
      updater = (\<lambda>log fs call. \<lparr>fo_added = [], fo_error = None\<rparr>)\<rparr>"

definition demo_fs :: in_memory_fs where
  "demo_fs =
     \<lparr>fs_path = ''/root'',
      fs_files =
        [(''file:///root/a.ts'', Some ''/root/b.ts''),
         (''file:///root/b.ts'', Some ''/root/a.ts''),
         (''file:///root/globals.d.ts'', None),
         (''file:///root/node_modules/x/package.json'', None),
         (''file:///root/node_modules/x/index.js'', None)]\<rparr>"

definition demo_pm :: project_manager where
  "demo_pm = new_ProjectManager ''/root'' demo_fs False"

text \<open>A fallback session as the constructor builds it, and the same session once
  \<open>ensureConfigFile\<close> has run in the environment of the examples.\<close>

definition demo_session :: project_configuration where
  "demo_session = new_ProjectConfiguration ''/root'' [] (Some (fallback_config Ts)) False"

definition demo_host :: language_service_host where
  "demo_host =
     new_InMemoryLanguageServiceHost ''/root''
       \<lparr>allowJs = False, traceResolution = False, otherOptions = []\<rparr>"

definition demo_session_initialized :: project_configuration where
  "demo_session_initialized =
     demo_session
       \<lparr>pc_service := Some LanguageService, pc_host := Some demo_host, initialized := True\<rparr>"

text \<open>The same environment with an analyzer that yields no program.\<close>

definition demo_env_no_program :: env where
  "demo_env_no_program = demo_env\<lparr>ls_getProgram := (\<lambda>h fs. None)\<rparr>"

section \<open>Invariants used by the statements\<close>

text \<open>\<open>init\<close> sets the service and the host together and \<open>reset\<close> drops them
  together, so an initialized session has both.\<close>

definition session_inv :: "project_configuration \<Rightarrow> bool" where
  "session_inv c = (if initialized c then pc_service c \<noteq> None \<and> pc_host c \<noteq> None else True)"

text \<open>The two fallback sessions were allocated before any session the listener
  creates.\<close>

definition fallbacks_allocated :: "project_manager \<Rightarrow> bool" where
  "fallbacks_allocated pm =
     (fallbackConfigs_js pm < next_object pm \<and> fallbackConfigs_ts pm < next_object pm)"



section \<open>Sequences of operations\<close>


definition on_session ::
  "(project_configuration \<Rightarrow> error + project_configuration) \<Rightarrow> nat \<Rightarrow> project_manager
     \<Rightarrow> project_manager" where
  "on_session f r pm = (case f (objects pm r) of Inl err \<Rightarrow> pm | Inr c \<Rightarrow> store_object r c pm)"

definition subscribed :: "env \<Rightarrow> nat \<times> project_manager \<Rightarrow> project_manager" where
  "subscribed e x = snd (subscribe e (fst x) (snd x))"





text \<open>
  The entry point of each pipeline, and the first call a run of it makes to the
  updater.
\<close>

definition invoke :: "pipeline \<Rightarrow> project_manager \<Rightarrow> nat \<times> project_manager" where
  "invoke p pm =
     (case p of
        ModuleStructure \<Rightarrow> ensureModuleStructure pm
      | OwnFiles \<Rightarrow> ensureOwnFiles pm
      | AllFiles \<Rightarrow> pm_ensureAllFiles pm
      | ReferencedFiles uri \<Rightarrow> resolveReferencedFiles uri pm)"

definition first_call :: "pipeline \<Rightarrow> fetch_call" where
  "first_call p = (case p of ReferencedFiles uri \<Rightarrow> Ensure uri | _ \<Rightarrow> EnsureStructure)"

text \<open>The environment of the examples with an updater whose first call fails.\<close>

definition demo_env_offline_once :: env where
  "demo_env_offline_once =
     demo_env\<lparr>updater := (\<lambda>log fs call.
        \<lparr>fo_added = [],
         fo_error = (if log = [] then Some (FetchError ''offline'') else None)\<rparr>)\<rparr>"

section \<open>Properties of the project session\<close>

lemma init_cases:
  "init e fs c = Inr c1 \<Longrightarrow>
     (initialized c \<and> c1 = c) \<or>
     (\<not> initialized c \<and> initialized c1 \<and> pc_service c1 = Some LanguageService \<and>
      (\<exists>opts. pc_host c1 = Some (new_InMemoryLanguageServiceHost (fs_path fs) opts)) \<and>
      ensuredBasicFiles c1 = ensuredBasicFiles c \<and> pc_ensuredAllFiles c1 = pc_ensuredAllFiles c)"
  by (auto simp: init_def Let_def split: if_splits sum.splits option.splits)

lemma init_inv: "session_inv c \<Longrightarrow> init e fs c = Inr c1 \<Longrightarrow> session_inv c1 \<and> initialized c1"
  by (auto simp: session_inv_def dest!: init_cases)

lemma init_idem: "initialized c \<Longrightarrow> init e fs c = Inr c"
  by (simp add: init_def)

lemma session_inv_new: "session_inv (new_ProjectConfiguration r p cc t)"
  by (simp add: session_inv_def new_ProjectConfiguration_def)

lemma session_inv_reset: "session_inv (reset c)"
  by (simp add: session_inv_def reset_def)

lemma demo_session_inv: "session_inv demo_session"
  by (simp add: session_inv_def demo_session_def new_ProjectConfiguration_def)

lemma demo_session_init:
  "init demo_env demo_fs demo_session = Inr demo_session_initialized"
  "init demo_env_no_program demo_fs demo_session = Inr demo_session_initialized"
  by (simp_all add: init_def demo_session_def demo_session_initialized_def demo_host_def
        demo_env_no_program_def
        new_ProjectConfiguration_def demo_env_def demo_fs_def Let_def fallback_config_def
        truncateAtLastSlash_def toUnixPath_def is_jsconfig_def endsWith_def new_Set_def)

text \<open>
  C3 (as amended). On a session on which \<open>ensureConfigFile\<close> has never succeeded, that
  is a freshly constructed or a reset one, or any session without a language service,
  \<open>getProgram\<close> raises "project is uninitialized"; once \<open>ensureConfigFile\<close> has
  succeeded, \<open>getProgram\<close> does not raise and returns what the analyzer answers for the
  session's host, a program or absent.
\<close>

theorem getProgram_uninitialized_raises:
  "getProgram e fs (new_ProjectConfiguration r p cc t) = Inl Uninitialized \<and>
   getProgram e fs (reset c) = Inl Uninitialized \<and>
   (pc_service c = None \<longrightarrow> getProgram e fs c = Inl Uninitialized) \<and>
   (session_inv c \<and> ensureConfigFile e fs c = Inr c1 \<longrightarrow>
      (\<exists>h. pc_host c1 = Some h \<and> getProgram e fs c1 = Inr (ls_getProgram e h fs)))"
proof -
  have a: "getProgram e fs (new_ProjectConfiguration r p cc t) = Inl Uninitialized"
    by (simp add: getProgram_def getService_def new_ProjectConfiguration_def)
  have b: "getProgram e fs (reset c) = Inl Uninitialized"
    by (simp add: getProgram_def getService_def reset_def)
  have c: "pc_service c = None \<longrightarrow> getProgram e fs c = Inl Uninitialized"
    by (simp add: getProgram_def getService_def)
  have d: "\<exists>h. pc_host c1 = Some h \<and> getProgram e fs c1 = Inr (ls_getProgram e h fs)"
    if "session_inv c" "ensureConfigFile e fs c = Inr c1"
  proof -
    from that have "session_inv c1" "initialized c1"
      using init_inv [of c e fs c1] by (simp_all add: ensureConfigFile_def)
    then obtain s h where "pc_service c1 = Some s" "pc_host c1 = Some h"
      by (auto simp: session_inv_def)
    then show ?thesis
      by (simp add: getProgram_def getService_def)
  qed
  from a b c d show ?thesis by blast
qed

theorem getProgram_uninitialized_raises_witness:
  "pc_service demo_session = None \<and>
   getProgram demo_env demo_fs demo_session = Inl Uninitialized \<and>
   session_inv demo_session \<and>
   ensureConfigFile demo_env demo_fs demo_session = Inr demo_session_initialized \<and>
   getProgram demo_env demo_fs demo_session_initialized = Inr (Some (Program []))"
proof -
  have h1: "pc_service demo_session = None"
    by (simp add: demo_session_def new_ProjectConfiguration_def)
  have h2: "ensureConfigFile demo_env demo_fs demo_session = Inr demo_session_initialized"
    by (simp add: ensureConfigFile_def demo_session_init)
  from getProgram_uninitialized_raises
         [where e = demo_env and fs = demo_fs and c = demo_session
            and ?c1.0 = demo_session_initialized]
  show ?thesis
    using h1 h2 demo_session_inv
    by (auto simp: demo_session_initialized_def demo_host_def
          new_InMemoryLanguageServiceHost_def demo_env_def)
qed

text \<open>
  C3 (as stated) fails: on the session the constructor has just built, \<open>getProgram\<close>
  raises instead of returning absent.
\<close>

theorem getProgram_uninitialized_counterexample:
  "getProgram demo_env demo_fs
     (new_ProjectConfiguration ''/root'' ''/root/tsconfig.json'' None False) \<noteq> Inr None"
  by (simp add: getProgram_def getService_def new_ProjectConfiguration_def)

text \<open>
  C4 (as amended). \<open>ensureSourceFile\<close> does not call \<open>ensureConfigFile\<close>: on a session
  without a language service it raises "project is uninitialized". On an initialized
  session it stages the path with \<open>addFile\<close> exactly when the analyzer yields a
  program and that program lacks the file, and changes nothing otherwise. Called after
  a successful \<open>ensureConfigFile\<close>, as \<open>didChange\<close> does, it succeeds.
\<close>

theorem ensureSourceFile_needs_initialized:
  "(pc_service c = None \<longrightarrow> ensureSourceFile e fs p c = Inl Uninitialized) \<and>
   (pc_service c \<noteq> None \<and> pc_host c = Some h \<longrightarrow>
      ensureSourceFile e fs p c =
        (case ls_getProgram e h fs of
           None \<Rightarrow> Inr c
         | Some prog \<Rightarrow>
             if getSourceFile prog p then Inr c
             else Inr (c\<lparr>pc_host := Some (addFile p h)\<rparr>))) \<and>
   (session_inv c \<and> ensureConfigFile e fs c = Inr c1 \<longrightarrow>
      (\<exists>c2. ensureSourceFile e fs p c1 = Inr c2))"
proof -
  have a: "pc_service c = None \<longrightarrow> ensureSourceFile e fs p c = Inl Uninitialized"
    by (simp add: ensureSourceFile_def getProgram_def getService_def)
  have b: "ensureSourceFile e fs p c =
        (case ls_getProgram e h fs of
           None \<Rightarrow> Inr c
         | Some prog \<Rightarrow>
             if getSourceFile prog p then Inr c
             else Inr (c\<lparr>pc_host := Some (addFile p h)\<rparr>))"
    if "pc_service c \<noteq> None" "pc_host c = Some h" for c h
    using that
    by (auto simp: ensureSourceFile_def getProgram_def getService_def stage_if_missing_def
          getHost_def split: option.splits)
  have d: "\<exists>c2. ensureSourceFile e fs p c1 = Inr c2"
    if "session_inv c" "ensureConfigFile e fs c = Inr c1"
  proof -
    from that have "session_inv c1" "initialized c1"
      using init_inv [of c e fs c1] by (simp_all add: ensureConfigFile_def)
    then obtain h where "pc_service c1 \<noteq> None" "pc_host c1 = Some h"
      by (auto simp: session_inv_def)
    from b [OF this] show ?thesis
      by (simp split: option.splits)
  qed
  from a b d show ?thesis by blast
qed


theorem ensureSourceFile_needs_initialized_witness:
  "pc_service demo_session = None \<and>
   ensureSourceFile demo_env demo_fs ''/root/a.ts'' demo_session = Inl Uninitialized \<and>
   pc_service demo_session_initialized \<noteq> None \<and>
   pc_host demo_session_initialized = Some demo_host \<and>
   ensureSourceFile demo_env demo_fs ''/root/a.ts'' demo_session_initialized
     = Inr (demo_session_initialized\<lparr>pc_host := Some (addFile ''/root/a.ts'' demo_host)\<rparr>) \<and>
   session_inv demo_session \<and>
   ensureConfigFile demo_env demo_fs demo_session = Inr demo_session_initialized"
proof -
  have h1: "pc_service demo_session = None"
    by (simp add: demo_session_def new_ProjectConfiguration_def)
  have h2: "ensureConfigFile demo_env demo_fs demo_session = Inr demo_session_initialized"
    by (simp add: ensureConfigFile_def demo_session_init)
  have h3: "pc_service demo_session_initialized \<noteq> None"
    "pc_host demo_session_initialized = Some demo_host"
    by (simp_all add: demo_session_initialized_def)
  have h4: "ls_getProgram demo_env demo_host demo_fs = Some (Program [])"
    by (simp add: demo_env_def demo_host_def new_InMemoryLanguageServiceHost_def)
  from ensureSourceFile_needs_initialized
         [where e = demo_env and fs = demo_fs and c = demo_session
            and p = "''/root/a.ts''" and h = demo_host]
       ensureSourceFile_needs_initialized
         [where e = demo_env and fs = demo_fs and c = demo_session_initialized
            and p = "''/root/a.ts''" and h = demo_host]
  show ?thesis
    using h1 h2 h3 h4 demo_session_inv
    by (simp add: getSourceFile_def)
qed

text \<open>
  C4 (as stated) fails: on the session the constructor has just built,
  \<open>ensureSourceFile\<close> raises; it has not called \<open>ensureConfigFile\<close>.
\<close>

theorem ensureSourceFile_uninitialized_counterexample:
  "ensureSourceFile demo_env demo_fs ''/root/a.ts''
     (new_ProjectConfiguration ''/root'' ''/root/tsconfig.json'' None False) = Inl Uninitialized"
  by (simp add: ensureSourceFile_def getProgram_def getService_def new_ProjectConfiguration_def)

text \<open>
  C10. Take a session that has its service and its host whenever it is initialized
  (\<open>session_inv\<close>, which the constructor, \<open>init\<close> and \<open>reset\<close> establish). When
  \<open>init\<close> succeeds and the language service yields no program,
  \<open>ensureBasicFiles\<close> and \<open>ensureAllFiles\<close> return the session as \<open>init\<close> left it:
  no file is staged (the host is the one the session had, or a new one with no file
  and \<open>complete\<close> unset), and \<open>ensuredBasicFiles\<close> and \<open>ensuredAllFiles\<close> stay
  false. A later call therefore runs the staging pass again: when the analyzer then
  yields a program, the call stages the files and sets the flag.
\<close>

theorem no_program_no_staging:
  assumes "session_inv c" and "init e fs c = Inr c1" and "getProgram e fs c1 = Inr None"
  shows "(\<not> ensuredBasicFiles c \<longrightarrow>
            ensureBasicFiles e fs c = Inr c1 \<and> \<not> ensuredBasicFiles c1) \<and>
         (\<not> pc_ensuredAllFiles c \<longrightarrow>
            ensureAllFiles e fs c = Inr c1 \<and> \<not> pc_ensuredAllFiles c1) \<and>
         (initialized c \<longrightarrow> pc_host c1 = pc_host c) \<and>
         (\<not> initialized c \<longrightarrow>
            (\<exists>h. pc_host c1 = Some h \<and> filePaths h = [] \<and> \<not> complete h)) \<and>
         (\<not> ensuredBasicFiles c \<and> getProgram e' fs' c1 = Inr (Some prog) \<longrightarrow>
            ensureBasicFiles e' fs' c1 =
              (case stage_each prog
                      (filter (is_basic_file e' c1) (map (uri2path e') (fs_uris fs'))) c1 of
                 Inl err \<Rightarrow> Inl err
               | Inr c2 \<Rightarrow> Inr (c2\<lparr>ensuredBasicFiles := True\<rparr>))) \<and>
         (\<not> pc_ensuredAllFiles c \<and> getProgram e' fs' c1 = Inr (Some prog) \<and>
          pc_host c1 = Some h1 \<and> \<not> complete h1 \<longrightarrow>
            ensureAllFiles e' fs' c1 =
              (case stage_each prog (expectedFilePaths c1) c1 of
                 Inl err \<Rightarrow> Inl err
               | Inr c2 \<Rightarrow>
                   (case getHost c2 of
                      Inl err \<Rightarrow> Inl err
                    | Inr h2 \<Rightarrow>
                        Inr (c2\<lparr>pc_host := Some (h2\<lparr>complete := True\<rparr>),
                                pc_ensuredAllFiles := True\<rparr>))))"
proof -
  note cases = init_cases [OF assms(2)]
  from assms(1,2) have inv1: "session_inv c1" "initialized c1"
    using init_inv by blast+
  then obtain h where h: "pc_host c1 = Some h"
    by (auto simp: session_inv_def)
  have flags: "ensuredBasicFiles c1 = ensuredBasicFiles c"
    "pc_ensuredAllFiles c1 = pc_ensuredAllFiles c"
    using cases by auto
  have basic: "ensureBasicFiles e fs c = Inr c1" if "\<not> ensuredBasicFiles c"
    using that assms(2,3) by (simp add: ensureBasicFiles_def)
  have all: "ensureAllFiles e fs c = Inr c1" if "\<not> pc_ensuredAllFiles c"
    using that assms(2,3) h by (simp add: ensureAllFiles_def getHost_def)
  have host_same: "initialized c \<longrightarrow> pc_host c1 = pc_host c"
    using cases by auto
  have host_new: "\<not> initialized c \<longrightarrow>
      (\<exists>h. pc_host c1 = Some h \<and> filePaths h = [] \<and> \<not> complete h)"
    using cases by (auto simp: new_InMemoryLanguageServiceHost_def)
  have again_basic: "ensureBasicFiles e' fs' c1 =
      (case stage_each prog
              (filter (is_basic_file e' c1) (map (uri2path e') (fs_uris fs'))) c1 of
         Inl err \<Rightarrow> Inl err
       | Inr c2 \<Rightarrow> Inr (c2\<lparr>ensuredBasicFiles := True\<rparr>))"
    if "\<not> ensuredBasicFiles c" "getProgram e' fs' c1 = Inr (Some prog)"
    using that flags inv1(2) by (simp add: ensureBasicFiles_def init_idem)
  have again_all: "ensureAllFiles e' fs' c1 =
      (case stage_each prog (expectedFilePaths c1) c1 of
         Inl err \<Rightarrow> Inl err
       | Inr c2 \<Rightarrow>
           (case getHost c2 of
              Inl err \<Rightarrow> Inl err
            | Inr h2 \<Rightarrow>
                Inr (c2\<lparr>pc_host := Some (h2\<lparr>complete := True\<rparr>),
                        pc_ensuredAllFiles := True\<rparr>)))"
    if "\<not> pc_ensuredAllFiles c" "getProgram e' fs' c1 = Inr (Some prog)"
       "pc_host c1 = Some h1" "\<not> complete h1"
    using that flags inv1(2) by (simp add: ensureAllFiles_def init_idem getHost_def)
  from basic all flags host_same host_new again_basic again_all show ?thesis
    by blast
qed


theorem no_program_no_staging_witness:
  "session_inv demo_session \<and>
   init demo_env_no_program demo_fs demo_session = Inr demo_session_initialized \<and>
   getProgram demo_env_no_program demo_fs demo_session_initialized = Inr None \<and>
   ensureBasicFiles demo_env_no_program demo_fs demo_session = Inr demo_session_initialized \<and>
   \<not> ensuredBasicFiles demo_session_initialized \<and>
   ensureAllFiles demo_env_no_program demo_fs demo_session = Inr demo_session_initialized \<and>
   \<not> pc_ensuredAllFiles demo_session_initialized \<and>
   filePaths demo_host = [] \<and> \<not> complete demo_host \<and>
   ensureBasicFiles demo_env demo_fs demo_session_initialized
     = Inr (demo_session_initialized
              \<lparr>pc_host := Some (addFile ''/root/globals.d.ts'' demo_host),
               ensuredBasicFiles := True\<rparr>) \<and>
   ensureAllFiles demo_env demo_fs demo_session_initialized
     = Inr (demo_session_initialized
              \<lparr>pc_host := Some (demo_host\<lparr>complete := True\<rparr>), pc_ensuredAllFiles := True\<rparr>)"
proof -
  have h3: "getProgram demo_env_no_program demo_fs demo_session_initialized = Inr None"
    by (simp add: getProgram_def getService_def demo_session_initialized_def
          demo_env_no_program_def)
  have h4: "getProgram demo_env demo_fs demo_session_initialized = Inr (Some (Program []))"
    by (simp add: getProgram_def getService_def demo_session_initialized_def demo_env_def
          demo_host_def new_InMemoryLanguageServiceHost_def)
  have flags: "\<not> ensuredBasicFiles demo_session" "\<not> pc_ensuredAllFiles demo_session"
    "\<not> initialized demo_session" "pc_host demo_session_initialized = Some demo_host"
    "\<not> complete demo_host" "filePaths demo_host = []"
    "expectedFilePaths demo_session_initialized = []"
    by (simp_all add: demo_session_def new_ProjectConfiguration_def
          demo_session_initialized_def demo_host_def new_InMemoryLanguageServiceHost_def)
  have basic: "filter (is_basic_file demo_env demo_session_initialized)
                 (map (uri2path demo_env) (fs_uris demo_fs)) = [''/root/globals.d.ts'']"
    by (simp add: is_basic_file_def demo_env_def demo_fs_def fs_uris_def demo_uri2path_def
          spec_isGlobalTSFile_def spec_isDeclarationFile_def endsWith_def
          truncateAtLastSlash_def flags)
  from no_program_no_staging
         [OF demo_session_inv demo_session_init(2) h3,
          where e' = demo_env and fs' = demo_fs and prog = "Program []" and ?h1.0 = demo_host]
  show ?thesis
    using demo_session_inv demo_session_init(2) h3 h4 flags
    by (simp add: basic stage_if_missing_def getSourceFile_def getHost_def)
qed

section \<open>Properties of the router\<close>

lemma configs_set_configs:
  "configs t (set_configs t' m pm) = (if t = t' then m else configs t pm)"
  by (cases t; cases t') (simp_all add: configs_def set_configs_def)

lemma fallbackConfigs_set_configs: "fallbackConfigs t (set_configs t' m pm) = fallbackConfigs t pm"
  by (cases t; cases t') (simp_all add: fallbackConfigs_def set_configs_def)

lemma objects_set_configs: "objects (set_configs t' m pm) = objects pm"
  by (cases t') (simp_all add: set_configs_def)

lemma next_object_set_configs: "next_object (set_configs t' m pm) = next_object pm"
  by (cases t') (simp_all add: set_configs_def)

lemma configs_upd_objects:
  "configs t (pm\<lparr>objects := h, next_object := n\<rparr>) = configs t pm"
  "fallbackConfigs t (pm\<lparr>objects := h, next_object := n\<rparr>) = fallbackConfigs t pm"
  by (cases t; simp add: configs_def fallbackConfigs_def)+

lemma fallbacks_allocated_new: "fallbacks_allocated (new_ProjectManager r fs t)"
  by (simp add: fallbacks_allocated_def new_ProjectManager_def Let_def)

lemma demo_pm_allocated: "fallbacks_allocated demo_pm"
  unfolding demo_pm_def by (rule fallbacks_allocated_new)

text \<open>
  What the listener of the \<open>add\<close> event does. It acts exactly when the content is
  defined and non-empty, the URI contains \<open>/tsconfig.json\<close> or \<open>/jsconfig.json\<close> (the
  pattern of the source is not anchored at the end) and the URI does not contain
  \<open>/node_modules/\<close>. Then a new session, built from the path and not yet initialized,
  is stored under the path's parent directory in the map of the kind that
  \<open>getConfigurationType\<close> gives the path; afterwards that map no longer holds the
  fallback session at the trimmed root; the other keys, the map of the other kind and
  the other sessions are as before. Otherwise the state is unchanged. The kind is
  \<open>ts\<close> for a path whose base name is \<open>tsconfig.json\<close> and \<open>js\<close> for one whose base name
  is \<open>jsconfig.json\<close>.
\<close>

lemma add_listener_effect:
  fixes e ev pm
  defines "filePath \<equiv> uri2path e (fst ev)"
  defines "dir \<equiv> truncateAtLastSlash (toUnixPath filePath)"
  defines "t \<equiv> getConfigurationType filePath"
  defines "root \<equiv> trimTrailingSlashes (rootPath pm)"
  defines "pm' \<equiv> on_add e ev pm"
  assumes inv: "fallbacks_allocated pm"
  shows "(add_filter ev \<longleftrightarrow>
            (snd ev \<noteq> None \<and> snd ev \<noteq> Some []) \<and>
            (str_includes (fst ev) ''/tsconfig.json'' \<or> str_includes (fst ev) ''/jsconfig.json'') \<and>
            \<not> str_includes (fst ev) ''/node_modules/'') \<and>
         (add_filter ev \<longrightarrow>
            map_of (configs t pm') dir = Some (next_object pm) \<and>
            objects pm' (next_object pm)
              = new_ProjectConfiguration dir filePath None (traceModuleResolution pm) \<and>
            next_object pm' = next_object pm + 1 \<and>
            map_of (configs t pm') root \<noteq> Some (fallbackConfigs t pm) \<and>
            (\<forall>k. k \<noteq> dir \<and> k \<noteq> root \<longrightarrow> map_of (configs t pm') k = map_of (configs t pm) k) \<and>
            (\<forall>t'. t' \<noteq> t \<longrightarrow> configs t' pm' = configs t' pm) \<and>
            (\<forall>r. r \<noteq> next_object pm \<longrightarrow> objects pm' r = objects pm r) \<and>
            fallbacks_allocated pm') \<and>
         (\<not> add_filter ev \<longrightarrow> pm' = pm) \<and>
         (posix_basename filePath = ''tsconfig.json'' \<longrightarrow> t = Ts) \<and>
         (posix_basename filePath = ''jsconfig.json'' \<longrightarrow> t = Js)"
proof -
  have K: "(posix_basename filePath = ''tsconfig.json'' \<longrightarrow> t = Ts) \<and>
           (posix_basename filePath = ''jsconfig.json'' \<longrightarrow> t = Js)"
    by (simp add: t_def getConfigurationType_def)
  have fb: "fallbackConfigs t pm \<noteq> next_object pm"
    using inv by (cases t) (auto simp: fallbacks_allocated_def fallbackConfigs_def)
  have A: "add_filter ev \<longleftrightarrow>
            (snd ev \<noteq> None \<and> snd ev \<noteq> Some []) \<and>
            (str_includes (fst ev) ''/tsconfig.json'' \<or> str_includes (fst ev) ''/jsconfig.json'') \<and>
            \<not> str_includes (fst ev) ''/node_modules/''"
    by (simp add: add_filter_def matches_config_pattern_def)
  have C: "\<not> add_filter ev \<longrightarrow> pm' = pm"
    by (simp add: pm'_def on_add_def)
  have B: ?thesis if f: "add_filter ev"
  proof -
    define pm1 where "pm1 = pm\<lparr>objects := (objects pm)
                          (next_object pm := new_ProjectConfiguration dir filePath None
                                  (traceModuleResolution pm)),
                      next_object := next_object pm + 1\<rparr>"
    define pm2 where "pm2 = set_configs t (AList.update dir (next_object pm) (configs t pm1)) pm1"
    have pm': "pm' = (if map_of (configs t pm2) root = Some (fallbackConfigs t pm2)
            then set_configs t (AList.delete root (configs t pm2)) pm2 else pm2)"
      using f
      by (simp add: pm'_def on_add_def Let_def pm2_def pm1_def dir_def filePath_def t_def root_def)
    have c1: "configs t' pm1 = configs t' pm" "fallbackConfigs t' pm1 = fallbackConfigs t' pm" for t'
      by (simp_all add: pm1_def configs_upd_objects)
    have c2: "configs t pm2 = AList.update dir (next_object pm) (configs t pm)"
      by (simp add: pm2_def configs_set_configs c1)
    have f2: "fallbackConfigs t pm2 = fallbackConfigs t pm"
      by (simp add: pm2_def fallbackConfigs_set_configs c1)
    have o2: "objects pm2 = objects pm1" "next_object pm2 = next_object pm1"
      by (simp_all add: pm2_def objects_set_configs next_object_set_configs)
    have other2: "configs t' pm2 = configs t' pm" if "t' \<noteq> t" for t'
      using that by (simp add: pm2_def configs_set_configs c1)
    have fa2: "fallbacks_allocated pm2"
      using inv by (cases t) (simp_all add: pm2_def set_configs_def pm1_def fallbacks_allocated_def)
    have rest: "objects pm' = objects pm1 \<and> next_object pm' = next_object pm1 \<and>
        (\<forall>t'. t' \<noteq> t \<longrightarrow> configs t' pm' = configs t' pm) \<and> fallbacks_allocated pm'"
    proof (cases "map_of (configs t pm2) root = Some (fallbackConfigs t pm2)")
      case True
      then have p: "pm' = set_configs t (AList.delete root (configs t pm2)) pm2"
        by (simp add: pm')
      have "fallbacks_allocated pm'"
        using fa2 by (cases t) (simp_all add: p set_configs_def fallbacks_allocated_def)
      then show ?thesis
        by (simp add: p objects_set_configs next_object_set_configs o2 configs_set_configs other2)
    next
      case False
      then have "pm' = pm2" by (simp add: pm')
      then show ?thesis
        using fa2 by (simp add: o2 other2)
    qed
    have m: "map_of (configs t pm') =
        (if map_of (configs t pm2) root = Some (fallbackConfigs t pm2)
         then ((map_of (configs t pm))(dir \<mapsto> next_object pm))(root := None)
         else (map_of (configs t pm))(dir \<mapsto> next_object pm))"
      by (simp add: pm' configs_set_configs c2 delete_conv' update_conv')
    have m2: "map_of (configs t pm2) = (map_of (configs t pm))(dir \<mapsto> next_object pm)"
      by (simp add: c2 update_conv')
    have ne: "dir \<noteq> root" if "map_of (configs t pm2) root = Some (fallbackConfigs t pm2)"
      using that fb by (auto simp: m2 f2 split: if_splits)
    have g1: "map_of (configs t pm') dir = Some (next_object pm)"
      using ne by (simp add: m)
    have g2: "map_of (configs t pm') root \<noteq> Some (fallbackConfigs t pm)"
    proof (cases "map_of (configs t pm2) root = Some (fallbackConfigs t pm2)")
      case True
      then show ?thesis by (simp add: m)
    next
      case False
      then have "map_of (configs t pm') = map_of (configs t pm2)"
        by (simp add: m m2)
      with False show ?thesis by (simp add: f2)
    qed
    have g3: "\<forall>k. k \<noteq> dir \<and> k \<noteq> root \<longrightarrow> map_of (configs t pm') k = map_of (configs t pm) k"
      by (simp add: m)
    have g4: "objects pm' (next_object pm)
              = new_ProjectConfiguration dir filePath None (traceModuleResolution pm)"
       "next_object pm' = next_object pm + 1"
       "\<forall>r. r \<noteq> next_object pm \<longrightarrow> objects pm' r = objects pm r"
      using rest by (simp_all add: pm1_def)
    from A C K f g1 g2 g3 g4 rest show ?thesis
      by blast
  qed
  show ?thesis
  proof (cases "add_filter ev")
    case True then show ?thesis by (rule B)
  next
    case False then show ?thesis using A C K by blast
  qed
qed


lemma add_listener_effect_example:
  "fallbacks_allocated demo_pm \<and>
   add_filter (''file:///root/pkg/tsconfig.json'', Some ''{}'') \<and>
   map_of (configs Ts (on_add demo_env (''file:///root/pkg/tsconfig.json'', Some ''{}'') demo_pm))
     ''/root/pkg'' = Some 2 \<and>
   map_of (configs Ts (on_add demo_env (''file:///root/pkg/tsconfig.json'', Some ''{}'') demo_pm))
     ''/root'' = None \<and>
   configs Js (on_add demo_env (''file:///root/pkg/tsconfig.json'', Some ''{}'') demo_pm)
     = [(''/root'', 0)] \<and>
   \<not> add_filter (''file:///root/node_modules/x/tsconfig.json'', Some ''{}'') \<and>
   on_add demo_env (''file:///root/node_modules/x/tsconfig.json'', Some ''{}'') demo_pm = demo_pm"
proof -
  have f1: "add_filter (''file:///root/pkg/tsconfig.json'', Some ''{}'')"
    by (simp add: add_filter_def matches_config_pattern_def)
  have f2: "\<not> add_filter (''file:///root/node_modules/x/tsconfig.json'', Some ''{}'')"
    by (simp add: add_filter_def matches_config_pattern_def)
  have p: "uri2path demo_env ''file:///root/pkg/tsconfig.json'' = ''/root/pkg/tsconfig.json''"
    by (simp add: demo_env_def demo_uri2path_def)
  have d: "truncateAtLastSlash (toUnixPath ''/root/pkg/tsconfig.json'') = ''/root/pkg''"
    by (simp add: truncateAtLastSlash_def toUnixPath_def)
  have t: "getConfigurationType ''/root/pkg/tsconfig.json'' = Ts"
    by (simp add: getConfigurationType_def posix_basename_def)
  have r: "trimTrailingSlashes (rootPath demo_pm) = ''/root''" "next_object demo_pm = 2"
    "configs Ts demo_pm = [(''/root'', 1)]" "configs Js demo_pm = [(''/root'', 0)]"
    "fallbackConfigs Ts demo_pm = 1"
    by (simp_all add: demo_pm_def new_ProjectManager_def trimTrailingSlashes_def configs_def
          fallbackConfigs_def Let_def)
  from add_listener_effect
         [OF demo_pm_allocated,
          where e = demo_env and ev = "(''file:///root/pkg/tsconfig.json'', Some ''{}'')"]
       add_listener_effect
         [OF demo_pm_allocated,
          where e = demo_env
            and ev = "(''file:///root/node_modules/x/tsconfig.json'', Some ''{}'')"]
  have a: "map_of (configs Ts (on_add demo_env (''file:///root/pkg/tsconfig.json'', Some ''{}'')
                     demo_pm)) ''/root/pkg'' = Some 2"
    and b: "configs Js (on_add demo_env (''file:///root/pkg/tsconfig.json'', Some ''{}'') demo_pm)
              = [(''/root'', 0)]"
    and c: "on_add demo_env (''file:///root/node_modules/x/tsconfig.json'', Some ''{}'') demo_pm
              = demo_pm"
    using f1 f2 by (simp_all add: p d t r)
  have e: "map_of (configs Ts (on_add demo_env (''file:///root/pkg/tsconfig.json'', Some ''{}'')
                     demo_pm)) ''/root'' = None"
    using f1 by (simp add: on_add_def Let_def p d t r configs_set_configs configs_upd_objects
          fallbackConfigs_set_configs)
  from a b c e f1 f2 demo_pm_allocated show ?thesis
    by simp
qed

text \<open>
  C5. The claim asks for a session, and the eviction of the fallback of the matching
  kind, exactly for a non-empty \<open>tsconfig.json\<close> or \<open>jsconfig.json\<close> outside
  \<open>node_modules\<close>. The listener does more than that, because its pattern has no anchor
  at the end and the kind is taken from the base name and the extension:
  \<open>file:///root/tsconfig.json.bak\<close>, which is not a configuration file, passes the
  filter, and a session built from it replaces the TypeScript fallback at \<open>/root\<close>;
  \<open>file:///root/pkg/jsconfig.json.bak\<close> passes the filter too, is given the kind
  \<open>ts\<close>, and evicts the TypeScript fallback while the JavaScript one stays.
\<close>

theorem add_listener_accepts_backup_file:
  "\<not> spec_isConfigFile ''file:///root/tsconfig.json.bak'' \<and>
   posix_basename (uri2path demo_env ''file:///root/tsconfig.json.bak'') = ''tsconfig.json.bak'' \<and>
   add_filter (''file:///root/tsconfig.json.bak'', Some ''{}'') \<and>
   configs Ts demo_pm = [(''/root'', 1)] \<and>
   configs Ts (on_add demo_env (''file:///root/tsconfig.json.bak'', Some ''{}'') demo_pm)
     = [(''/root'', 2)] \<and>
   configFilePath (objects (on_add demo_env (''file:///root/tsconfig.json.bak'', Some ''{}'')
                              demo_pm) 2) = ''/root/tsconfig.json.bak'' \<and>
   \<not> spec_isConfigFile ''file:///root/pkg/jsconfig.json.bak'' \<and>
   add_filter (''file:///root/pkg/jsconfig.json.bak'', Some ''{}'') \<and>
   configs Ts (on_add demo_env (''file:///root/pkg/jsconfig.json.bak'', Some ''{}'') demo_pm)
     = [(''/root/pkg'', 2)] \<and>
   configs Js (on_add demo_env (''file:///root/pkg/jsconfig.json.bak'', Some ''{}'') demo_pm)
     = [(''/root'', 0)]"
  by code_simp















section \<open>Properties of the referenced-files resolver\<close>

lemma posix_dirname_absolute:
  assumes "isAbsolute p"
  shows "isAbsolute (posix_dirname p) \<and> posix_dirname p \<noteq> []"
proof -
  from assms obtain cs where p: "p = CHR ''/'' # cs"
    by (cases p) (auto simp: isAbsolute_def)
  define r where "r = dropWhile (\<lambda>c. c \<noteq> CHR ''/'') (dropWhile (\<lambda>c. c = CHR ''/'') (rev cs))"
  show ?thesis
  proof (cases "r = []")
    case True
    then show ?thesis
      by (simp add: posix_dirname_def p isAbsolute_def r_def [symmetric] Let_def)
  next
    case False
    then have "0 < length r" by simp
    then obtain n where n: "length r = Suc n" by (cases "length r") auto
    show ?thesis
      using False n by (simp add: posix_dirname_def p isAbsolute_def r_def [symmetric] Let_def)
  qed
qed

lemma resolve_loop_absolute_dir:
  assumes "isAbsolute d" "d \<noteq> []"
  shows "resolve_loop (rev [root, d, n] @ [cwd]) [] = resolve_loop (rev [d, n] @ [cwd']) []"
  using assms by simp

text \<open>
  C9 (as amended). For a triple-slash path reference the resolver yields
  \<open>pathResolver.resolve(rootPath, pathResolver.dirname(referencingFilePath), toUnixPath(fileName))\<close>,
  with the \<open>posix\<close> flavour of the path module unless the referencing path contains a
  backslash, and the \<open>win32\<close> flavour then. \<open>resolve\<close> stops at the first absolute
  argument from the right: for an absolute referencing path (\<open>posix\<close> flavour) the
  workspace root and the working directory do not enter the result, which is the
  reference resolved against the referencing file's directory. Every reference of the
  file is yielded so resolved; the file system is not consulted.
\<close>

theorem path_reference_resolved:
  "(\<not> str_includes ref [CHR 0x5C] \<longrightarrow>
      resolve_path_reference e root ref name
        = posix_resolve (process_cwd e) [root, posix_dirname ref, toUnixPath name]) \<and>
   (\<not> str_includes ref [CHR 0x5C] \<and> isAbsolute ref \<longrightarrow>
      resolve_path_reference e root ref name
        = posix_resolve cwd' [posix_dirname ref, toUnixPath name] \<and>
      resolve_path_reference e root' ref name = resolve_path_reference e root ref name) \<and>
   (str_includes ref [CHR 0x5C] \<longrightarrow>
      resolve_path_reference e root ref name
        = win32_resolve e [root, win32_dirname e ref, toUnixPath name]) \<and>
   (preProcessFile e contents = (imported, refs, typeRefs) \<and> name \<in> set refs \<longrightarrow>
      resolve_path_reference e (rootPath pm) ref name
        \<in> set (referenced_paths e pm ref opts contents))"
proof -
  have a: "resolve_path_reference e root ref name
        = posix_resolve cwd' [posix_dirname ref, toUnixPath name]"
    if "\<not> str_includes ref [CHR 0x5C]" "isAbsolute ref" for root cwd'
  proof -
    from posix_dirname_absolute [OF that(2)]
    have "resolve_loop (rev [root, posix_dirname ref, toUnixPath name] @ [process_cwd e]) []
          = resolve_loop (rev [posix_dirname ref, toUnixPath name] @ [cwd']) []"
      by (intro resolve_loop_absolute_dir) simp_all
    with that(1) show ?thesis
      by (simp only: resolve_path_reference_def posix_resolve_def if_False)
  qed
  have b: "resolve_path_reference e root' ref name = resolve_path_reference e root ref name"
    if "\<not> str_includes ref [CHR 0x5C]" "isAbsolute ref"
    using a [OF that, of root' "[]"] a [OF that, of root "[]"] by simp
  have c: "resolve_path_reference e (rootPath pm) ref name
        \<in> set (referenced_paths e pm ref opts contents)"
    if "preProcessFile e contents = (imported, refs, typeRefs)" "name \<in> set refs"
    using that by (simp add: referenced_paths_def)
  have p: "\<not> str_includes ref [CHR 0x5C] \<longrightarrow>
      resolve_path_reference e root ref name
        = posix_resolve (process_cwd e) [root, posix_dirname ref, toUnixPath name]"
    by (simp add: resolve_path_reference_def)
  have w: "str_includes ref [CHR 0x5C] \<longrightarrow>
      resolve_path_reference e root ref name
        = win32_resolve e [root, win32_dirname e ref, toUnixPath name]"
    by (simp add: resolve_path_reference_def)
  from a [of root cwd'] b c p w show ?thesis
    by blast
qed

theorem path_reference_resolved_witness:
  "\<not> str_includes ''/root/src/a.ts'' [CHR 0x5C] \<and> isAbsolute ''/root/src/a.ts'' \<and>
   resolve_path_reference demo_env ''/root'' ''/root/src/a.ts'' ''../lib.d.ts''
     = posix_resolve ''/elsewhere'' [''/root/src'', ''../lib.d.ts''] \<and>
   posix_resolve ''/elsewhere'' [''/root/src'', ''../lib.d.ts''] = ''/root/lib.d.ts'' \<and>
   str_includes (CHR ''C'' # CHR '':'' # CHR 0x5C # ''a.ts'') [CHR 0x5C] \<and>
   resolve_path_reference demo_env ''/root'' (CHR ''C'' # CHR '':'' # CHR 0x5C # ''a.ts'') ''x.ts''
     = win32_resolve demo_env
         [''/root'', win32_dirname demo_env (CHR ''C'' # CHR '':'' # CHR 0x5C # ''a.ts''), ''x.ts'']"
proof -
  have h: "\<not> str_includes ''/root/src/a.ts'' [CHR 0x5C]" "isAbsolute ''/root/src/a.ts''"
    "str_includes (CHR ''C'' # CHR '':'' # CHR 0x5C # ''a.ts'') [CHR 0x5C]"
    by (simp_all add: isAbsolute_def)
  have d: "posix_dirname ''/root/src/a.ts'' = ''/root/src''"
    by code_simp
  have u: "toUnixPath ''../lib.d.ts'' = ''../lib.d.ts''" "toUnixPath ''x.ts'' = ''x.ts''"
    by (simp_all add: toUnixPath_def)
  have v: "posix_resolve ''/elsewhere'' [''/root/src'', ''../lib.d.ts''] = ''/root/lib.d.ts''"
    by code_simp
  from path_reference_resolved
         [where e = demo_env and root = "''/root''" and ref = "''/root/src/a.ts''"
            and name = "''../lib.d.ts''" and cwd' = "''/elsewhere''" and root' = "''/root''"
            and contents = "[]" and imported = "[]" and refs = "[]" and typeRefs = "[]"
            and pm = demo_pm and opts = "host_options demo_host"]
  have a: "resolve_path_reference demo_env ''/root'' ''/root/src/a.ts'' ''../lib.d.ts''
     = posix_resolve ''/elsewhere'' [''/root/src'', ''../lib.d.ts'']"
    using h(1,2) unfolding d u by blast
  from path_reference_resolved
         [where e = demo_env and root = "''/root''"
            and ref = "CHR ''C'' # CHR '':'' # CHR 0x5C # ''a.ts''" and name = "''x.ts''"
            and cwd' = "''/elsewhere''" and root' = "''/root''"
            and contents = "[]" and imported = "[]" and refs = "[]" and typeRefs = "[]"
            and pm = demo_pm and opts = "host_options demo_host"]
  have b: "resolve_path_reference demo_env ''/root''
             (CHR ''C'' # CHR '':'' # CHR 0x5C # ''a.ts'') ''x.ts''
     = win32_resolve demo_env
         [''/root'', win32_dirname demo_env (CHR ''C'' # CHR '':'' # CHR 0x5C # ''a.ts''), ''x.ts'']"
    using h(3) unfolding u by blast
  from h a b v show ?thesis
    by (simp only: simp_thms)
qed

text \<open>
  C9 (as stated) fails: for the reference \<open>lib.d.ts\<close> in \<open>/root/src/a.ts\<close> of the
  workspace \<open>/root\<close> the resolver yields \<open>/root/src/lib.d.ts\<close>, not the path that
  joining the root, the directory and the name gives.
\<close>

theorem path_reference_not_joined_counterexample:
  "resolve_path_reference demo_env ''/root'' ''/root/src/a.ts'' ''lib.d.ts''
     = ''/root/src/lib.d.ts'' \<and>
   posix_join [''/root'', posix_dirname ''/root/src/a.ts'', ''lib.d.ts'']
     = ''/root/root/src/lib.d.ts''"
  by code_simp

section \<open>Properties of the version map\<close>

lemma versions_set_configs [simp]: "versions (set_configs t m pm) = versions pm"
  by (cases t) (simp_all add: set_configs_def)

lemma versions_store_object [simp]: "versions (store_object r c pm) = versions pm"
  by (simp add: store_object_def)

lemma versions_on_add [simp]: "versions (on_add e ev pm) = versions pm"
  by (simp add: on_add_def Let_def)

lemma versions_vfs_add [simp]: "versions (vfs_add e ev pm) = versions pm"
  by (simp add: vfs_add_def)

lemma versions_fold_vfs_add [simp]: "versions (fold (vfs_add e) evs pm) = versions pm"
  by (induction evs arbitrary: pm) simp_all

lemma versions_fetch [simp]: "versions (snd (fetch e call pm)) = versions pm"
  by (simp add: fetch_def Let_def)

lemma versions_fetch_each [simp]: "versions (snd (fetch_each e us pm)) = versions pm"
proof (induction us arbitrary: pm)
  case Nil
  then show ?case by simp
next
  case (Cons u us)
  obtain r pm1 where f: "fetch e (Ensure u) pm = (r, pm1)"
    by (cases "fetch e (Ensure u) pm")
  then have "versions pm1 = versions pm"
    using versions_fetch [of e "Ensure u" pm] by simp
  with f Cons.IH [of pm1] show ?case
    by (cases r) simp_all
qed

lemma versions_clear_slot [simp]: "versions (clear_slot p pm) = versions pm"
  by (cases p) (simp_all add: clear_slot_def)

lemma versions_set_slot [simp]: "versions (set_slot p ob pm) = versions pm"
  by (cases p) (simp_all add: set_slot_def)

lemma versions_invalidateReferencedFiles [simp]:
  "versions (invalidateReferencedFiles u pm) = versions pm"
  by (simp add: invalidateReferencedFiles_def split: option.splits)

lemma versions_on_complete [simp]: "versions (on_complete p pm) = versions pm"
  by (cases p) (simp_all add: on_complete_def reset_all_def)

lemma versions_run_ensure [simp]: "versions (snd (run_ensure e p pm)) = versions pm"
proof -
  obtain r1 pm1 where f1: "fetch e EnsureStructure pm = (r1, pm1)"
    by (cases "fetch e EnsureStructure pm")
  then have v1: "versions pm1 = versions pm"
    using versions_fetch [of e EnsureStructure pm] by simp
  obtain r2 pm2 where f2:
    "fetch_each e (filter (pipeline_filter e p) (fs_uris (inMemoryFs pm1))) pm1 = (r2, pm2)"
    by (cases "fetch_each e (filter (pipeline_filter e p) (fs_uris (inMemoryFs pm1))) pm1")
  then have v2: "versions pm2 = versions pm1"
    using versions_fetch_each
            [of e "filter (pipeline_filter e p) (fs_uris (inMemoryFs pm1))" pm1] by simp
  show ?thesis
    using f1 f2 v1 v2 by (cases r1; cases r2) (simp_all add: run_ensure_def)
qed

lemma versions_run_referenced [simp]: "versions (snd (run_referenced e uri pm)) = versions pm"
proof -
  obtain r1 pm1 where f1: "fetch e (Ensure uri) pm = (r1, pm1)"
    by (cases "fetch e (Ensure uri) pm")
  then have v1: "versions pm1 = versions pm"
    using versions_fetch [of e "Ensure uri" pm] by simp
  show ?thesis
    using f1 v1
    by (cases r1) (simp_all add: run_referenced_def Let_def split: sum.splits)
qed








lemma versions_on_session [simp]: "versions (on_session f r pm) = versions pm"
  by (simp add: on_session_def split: sum.splits)









section \<open>Properties of the walk over referenced files\<close>

lemma walk_calls:
  "distinct (calls (fst s)) \<and> set (calls (fst s)) \<subseteq> ignore (fst s) \<and> uri \<notin> ignore (fst s) \<Longrightarrow>
     distinct (calls (fst (snd (ensureReferencedFiles e uri d s)))) \<and>
     set (calls (fst (snd (ensureReferencedFiles e uri d s))))
       \<subseteq> ignore (fst (snd (ensureReferencedFiles e uri d s)))"
  "distinct (calls (fst s)) \<and> set (calls (fst s)) \<subseteq> ignore (fst s) \<Longrightarrow>
     distinct (calls (fst (snd (recurse_each e n uris s)))) \<and>
     set (calls (fst (snd (recurse_each e n uris s))))
       \<subseteq> ignore (fst (snd (recurse_each e n uris s)))"
proof (induction e uri d s and e n uris s rule: ensureReferencedFiles_recurse_each.induct)
  case (1 e uri maxDepth w pm)
  define w1 where "w1 = w\<lparr>ignore := insert uri (ignore w), calls := calls w @ [uri]\<rparr>"
  from "1.prems" have inv1: "distinct (calls w1) \<and> set (calls w1) \<subseteq> ignore w1"
    by (auto simp: w1_def)
  obtain ob pm1 where m: "ensureModuleStructure pm = (ob, pm1)"
    by (cases "ensureModuleStructure pm")
  obtain vs err pm2 where s1: "subscribe e ob pm1 = ((vs, err), pm2)"
    by (cases "subscribe e ob pm1") auto
  show ?case
  proof (cases err)
    case (Some x)
    with m s1 inv1 show ?thesis
      by (simp add: ensureReferencedFiles.simps w1_def [symmetric])
  next
    case None
    note s1 = s1 [unfolded None]
    show ?thesis
    proof (cases maxDepth)
      case 0
      with m s1 inv1 show ?thesis
        by (simp add: ensureReferencedFiles.simps w1_def [symmetric])
    next
      case (Suc d)
      obtain ob2 pm3 where r: "resolveReferencedFiles uri pm2 = (ob2, pm3)"
        by (cases "resolveReferencedFiles uri pm2")
      obtain refd err2 pm4 where s2: "subscribe e ob2 pm3 = ((refd, err2), pm4)"
        by (cases "subscribe e ob2 pm3") auto
      obtain em w2 pm5 where re: "recurse_each e d refd (w1, pm4) = (em, w2, pm5)"
        by (cases "recurse_each e d refd (w1, pm4)") auto
      from "1.IH" [OF w1_def m [symmetric] s1 [symmetric] refl refl Suc r [symmetric]
                      s2 [symmetric] refl] inv1 re
      have "distinct (calls w2) \<and> set (calls w2) \<subseteq> ignore w2"
        by simp
      with m s1 Suc r s2 re show ?thesis
        by (simp add: ensureReferencedFiles.simps w1_def [symmetric])
    qed
  qed
next
  case (2 e d s)
  then show ?case by simp
next
  case (3 e d referencedUri rest w pm)
  show ?case
  proof (cases "referencedUri \<in> ignore w")
    case True
    with "3.IH"(1) "3.prems" show ?thesis by simp
  next
    case False
    obtain em err w1 pm1 where c: "ensureReferencedFiles e referencedUri d (w, pm) = ((em, err), w1, pm1)"
      by (cases "ensureReferencedFiles e referencedUri d (w, pm)") auto
    from "3.IH"(2) [OF False] "3.prems" False c
    have inv1: "distinct (calls w1) \<and> set (calls w1) \<subseteq> ignore w1" by simp
    obtain em2 w2 pm2 where re: "recurse_each e d rest (w1, pm1) = (em2, w2, pm2)"
      by (cases "recurse_each e d rest (w1, pm1)") auto
    from "3.IH"(3) [OF False c [symmetric] refl refl] inv1 re
    have "distinct (calls w2) \<and> set (calls w2) \<subseteq> ignore w2" by simp
    with False c re show ?thesis
      by simp
  qed
qed

lemma walk_depth_zero:
  "ensureReferencedFiles e uri 0 (w, pm) =
     (case subscribe e (fst (ensureModuleStructure pm)) (snd (ensureModuleStructure pm)) of
        ((vs, err), pm2) \<Rightarrow>
          (([], err), w\<lparr>ignore := insert uri (ignore w), calls := calls w @ [uri]\<rparr>, pm2))"
proof -
  obtain ob pm1 where m: "ensureModuleStructure pm = (ob, pm1)"
    by (cases "ensureModuleStructure pm")
  obtain vs err pm2 where s1: "subscribe e ob pm1 = ((vs, err), pm2)"
    by (cases "subscribe e ob pm1") auto
  from m s1 show ?thesis
    by (cases err) (simp_all add: ensureReferencedFiles.simps)
qed

text \<open>
  C8. \<open>ensureReferencedFiles\<close> is a total function: it returns for every URI, every
  depth and every state, whatever the references are (the depth bounds the recursion,
  cyclic references included). In one top-level call, which starts from an empty
  \<open>ignore\<close> set, no URI is visited twice. With \<open>maxDepth = 0\<close> it emits nothing,
  visits the given URI only, and leaves the state that subscribing to
  \<open>ensureModuleStructure\<close> leaves: the resolver is not invoked.
\<close>

theorem ensureReferencedFiles_visits_once:
  "distinct (calls (fst (snd (ensureReferencedFiles e uri maxDepth
                                (\<lparr>ignore = {}, calls = []\<rparr>, pm))))) \<and>
   fst (fst (ensureReferencedFiles e uri 0 (w, pm))) = [] \<and>
   calls (fst (snd (ensureReferencedFiles e uri 0 (w, pm)))) = calls w @ [uri] \<and>
   snd (snd (ensureReferencedFiles e uri 0 (w, pm))) = subscribed e (ensureModuleStructure pm)"
proof -
  have a: "distinct (calls (fst (snd (ensureReferencedFiles e uri maxDepth
                                (\<lparr>ignore = {}, calls = []\<rparr>, pm)))))"
    using walk_calls(1) [of "(\<lparr>ignore = {}, calls = []\<rparr>, pm)" uri e maxDepth] by simp
  have b: "fst (fst (ensureReferencedFiles e uri 0 (w, pm))) = []"
    "calls (fst (snd (ensureReferencedFiles e uri 0 (w, pm)))) = calls w @ [uri]"
    "snd (snd (ensureReferencedFiles e uri 0 (w, pm))) = subscribed e (ensureModuleStructure pm)"
    by (simp_all add: walk_depth_zero subscribed_def split: prod.splits)
  from a b show ?thesis by blast
qed

lemma demo_walk:
  "calls (fst (snd (ensureReferencedFiles demo_env ''file:///root/a.ts'' 30
                      (\<lparr>ignore = {}, calls = []\<rparr>, demo_pm))))
     = [''file:///root/a.ts'', ''file:///root/b.ts'']"
  by code_simp

theorem ensureReferencedFiles_visits_once_witness:
  "calls (fst (snd (ensureReferencedFiles demo_env ''file:///root/a.ts'' 30
                      (\<lparr>ignore = {}, calls = []\<rparr>, demo_pm))))
     = [''file:///root/a.ts'', ''file:///root/b.ts''] \<and>
   distinct (calls (fst (snd (ensureReferencedFiles demo_env ''file:///root/a.ts'' 30
                                (\<lparr>ignore = {}, calls = []\<rparr>, demo_pm))))) \<and>
   fst (fst (ensureReferencedFiles demo_env ''file:///root/a.ts'' 0
               (\<lparr>ignore = {}, calls = []\<rparr>, demo_pm))) = []"
  using ensureReferencedFiles_visits_once
          [of demo_env "''file:///root/a.ts''" 30 demo_pm "\<lparr>ignore = {}, calls = []\<rparr>"]
        demo_walk
  by blast

section \<open>Properties of the pipelines\<close>

lemma invoke_memoized: "invoke p pm = memoized p pm"
  by (cases p)
     (simp_all add: invoke_def ensureModuleStructure_def ensureOwnFiles_def
        pm_ensureAllFiles_def resolveReferencedFiles_def)

text \<open>What the \<open>add\<close> listener and a fetch leave alone.\<close>

lemma on_add_frame:
  "updater_log (on_add e ev pm) = updater_log pm"
  "next_observable (on_add e ev pm) = next_observable pm"
  "observables (on_add e ev pm) = observables pm"
  "inMemoryFs (on_add e ev pm) = inMemoryFs pm"
  "slot p (on_add e ev pm) = slot p pm"
  by (cases "getConfigurationType (uri2path e (fst ev))";
      cases p; simp add: on_add_def Let_def set_configs_def slot_def)+

lemma vfs_add_frame:
  "updater_log (vfs_add e ev pm) = updater_log pm"
  "next_observable (vfs_add e ev pm) = next_observable pm"
  "observables (vfs_add e ev pm) = observables pm"
  "inMemoryFs (vfs_add e ev pm) = fs_add (fst ev) (snd ev) (inMemoryFs pm)"
  by (simp_all add: vfs_add_def on_add_frame)

lemma slot_frame:
  "slot p (pm\<lparr>inMemoryFs := fs\<rparr>) = slot p pm"
  "slot p (pm\<lparr>updater_log := l\<rparr>) = slot p pm"
  "slot p (pm\<lparr>observables := obs\<rparr>) = slot p pm"
  "slot p (pm\<lparr>objects := h\<rparr>) = slot p pm"
  by (cases p; simp add: slot_def)+

lemma slot_vfs_add: "slot p (vfs_add e ev pm) = slot p pm"
  by (simp add: vfs_add_def on_add_frame slot_frame)

lemma fold_vfs_add_frame:
  "updater_log (fold (vfs_add e) evs pm) = updater_log pm"
  "next_observable (fold (vfs_add e) evs pm) = next_observable pm"
  "observables (fold (vfs_add e) evs pm) = observables pm"
  "inMemoryFs (fold (vfs_add e) evs pm)
     = fold (\<lambda>ev. fs_add (fst ev) (snd ev)) evs (inMemoryFs pm)"
  "slot p (fold (vfs_add e) evs pm) = slot p pm"
  by (induction evs arbitrary: pm) (simp_all add: vfs_add_frame slot_vfs_add)

lemma fetch_frame:
  "updater_log (snd (fetch e call pm)) = updater_log pm @ [call]"
  "next_observable (snd (fetch e call pm)) = next_observable pm"
  "observables (snd (fetch e call pm)) = observables pm"
  "inMemoryFs (snd (fetch e call pm))
     = fold (\<lambda>ev. fs_add (fst ev) (snd ev))
         (fo_added (updater e (updater_log pm) (inMemoryFs pm) call)) (inMemoryFs pm)"
  by (simp_all add: fetch_def Let_def fold_vfs_add_frame)

lemma fetch_each_frame:
  "next_observable (snd (fetch_each e us pm)) = next_observable pm \<and>
   observables (snd (fetch_each e us pm)) = observables pm \<and>
   (\<exists>k \<le> length us. updater_log (snd (fetch_each e us pm))
        = updater_log pm @ map Ensure (take k us)) \<and>
   (fst (fetch_each e us pm) = None \<longrightarrow>
      updater_log (snd (fetch_each e us pm)) = updater_log pm @ map Ensure us)"
proof (induction us arbitrary: pm)
  case Nil
  then show ?case by simp
next
  case (Cons u us)
  obtain r pm1 where f: "fetch e (Ensure u) pm = (r, pm1)"
    by (cases "fetch e (Ensure u) pm")
  with fetch_frame [of e "Ensure u" pm]
  have f1: "updater_log pm1 = updater_log pm @ [Ensure u]"
    "next_observable pm1 = next_observable pm" "observables pm1 = observables pm"
    by simp_all
  show ?case
  proof (cases r)
    case (Some err)
    with f f1 have "updater_log (snd (fetch_each e (u # us) pm))
        = updater_log pm @ map Ensure (take 1 (u # us))"
      by simp
    then have "\<exists>k \<le> length (u # us). updater_log (snd (fetch_each e (u # us) pm))
        = updater_log pm @ map Ensure (take k (u # us))"
      by (intro exI [of _ 1]) simp
    with Some f f1 show ?thesis by simp
  next
    case None
    from Cons.IH [of pm1] obtain k where k: "k \<le> length us"
      "updater_log (snd (fetch_each e us pm1)) = updater_log pm1 @ map Ensure (take k us)"
      by blast
    then have "updater_log (snd (fetch_each e (u # us) pm))
        = updater_log pm @ map Ensure (take (Suc k) (u # us))"
      using None f f1 by simp
    with k(1) have "\<exists>k \<le> length (u # us). updater_log (snd (fetch_each e (u # us) pm))
        = updater_log pm @ map Ensure (take k (u # us))"
      by (intro exI [of _ "Suc k"]) simp
    with None f f1 Cons.IH [of pm1] show ?thesis by simp
  qed
qed

lemma clear_slot_frame:
  "slot p (clear_slot p pm) = None"
  "updater_log (clear_slot p pm) = updater_log pm"
  "next_observable (clear_slot p pm) = next_observable pm"
  "observables (clear_slot p pm) = observables pm"
  by (cases p; simp add: clear_slot_def slot_def delete_conv')+

lemma on_complete_frame:
  "updater_log (on_complete p pm) = updater_log pm"
  "next_observable (on_complete p pm) = next_observable pm"
  "observables (on_complete p pm) = observables pm"
  by (cases p; simp add: on_complete_def invalidateReferencedFiles_def reset_all_def)+

lemma run_ensure_frame:
  "next_observable (snd (run_ensure e p pm)) = next_observable pm"
  "observables (snd (run_ensure e p pm)) = observables pm"
  "\<exists>rest. updater_log (snd (run_ensure e p pm)) = updater_log pm @ EnsureStructure # rest"
  "snd (fst (run_ensure e p pm)) \<noteq> None \<Longrightarrow> slot p (snd (run_ensure e p pm)) = None"
  "snd (fst (run_ensure e p pm)) = None \<Longrightarrow>
     updater_log (snd (run_ensure e p pm))
       = updater_log pm @ EnsureStructure #
           map Ensure (filter (pipeline_filter e p)
                         (fs_uris (inMemoryFs (snd (fetch e EnsureStructure pm)))))"
proof -
  obtain r1 pm1 where f1: "fetch e EnsureStructure pm = (r1, pm1)"
    by (cases "fetch e EnsureStructure pm")
  with fetch_frame [of e EnsureStructure pm]
  have p1: "updater_log pm1 = updater_log pm @ [EnsureStructure]"
    "next_observable pm1 = next_observable pm" "observables pm1 = observables pm"
    by simp_all
  define us where "us = filter (pipeline_filter e p) (fs_uris (inMemoryFs pm1))"
  obtain r2 pm2 where f2: "fetch_each e us pm1 = (r2, pm2)"
    by (cases "fetch_each e us pm1")
  with fetch_each_frame [of e us pm1]
  have p2: "next_observable pm2 = next_observable pm1" "observables pm2 = observables pm1"
    "\<exists>k \<le> length us. updater_log pm2 = updater_log pm1 @ map Ensure (take k us)"
    "r2 = None \<longrightarrow> updater_log pm2 = updater_log pm1 @ map Ensure us"
    by simp_all
  have run: "run_ensure e p pm =
      (case r1 of
         Some err \<Rightarrow> (([], Some err), clear_slot p pm1)
       | None \<Rightarrow>
           (case r2 of
              Some err \<Rightarrow> (([], Some err), clear_slot p pm2)
            | None \<Rightarrow> (([], None), on_complete p pm2)))"
    using f1 f2 by (simp add: run_ensure_def us_def split: option.splits)
  show "next_observable (snd (run_ensure e p pm)) = next_observable pm"
    using p1 p2 by (simp add: run clear_slot_frame on_complete_frame split: option.splits)
  show "observables (snd (run_ensure e p pm)) = observables pm"
    using p1 p2 by (simp add: run clear_slot_frame on_complete_frame split: option.splits)
  show "\<exists>rest. updater_log (snd (run_ensure e p pm)) = updater_log pm @ EnsureStructure # rest"
    using p1 p2(3) by (auto simp: run clear_slot_frame on_complete_frame split: option.splits)
  show "slot p (snd (run_ensure e p pm)) = None" if "snd (fst (run_ensure e p pm)) \<noteq> None"
    using that by (simp add: run clear_slot_frame split: option.splits)
  show "updater_log (snd (run_ensure e p pm))
       = updater_log pm @ EnsureStructure #
           map Ensure (filter (pipeline_filter e p)
                         (fs_uris (inMemoryFs (snd (fetch e EnsureStructure pm)))))"
    if "snd (fst (run_ensure e p pm)) = None"
    using that p1 p2(4) f1
    by (simp add: run on_complete_frame us_def split: option.splits)
qed

lemma store_object_frame:
  "updater_log (store_object r c pm) = updater_log pm"
  "next_observable (store_object r c pm) = next_observable pm"
  "observables (store_object r c pm) = observables pm"
  by (simp_all add: store_object_def)

lemma run_referenced_frame:
  "next_observable (snd (run_referenced e uri pm)) = next_observable pm"
  "observables (snd (run_referenced e uri pm)) = observables pm"
  "updater_log (snd (run_referenced e uri pm)) = updater_log pm @ [Ensure uri]"
  "snd (fst (run_referenced e uri pm)) \<noteq> None \<Longrightarrow>
     slot (ReferencedFiles uri) (snd (run_referenced e uri pm)) = None"
proof -
  obtain r1 pm1 where f1: "fetch e (Ensure uri) pm = (r1, pm1)"
    by (cases "fetch e (Ensure uri) pm")
  with fetch_frame [of e "Ensure uri" pm]
  have p1: "updater_log pm1 = updater_log pm @ [Ensure uri]"
    "next_observable pm1 = next_observable pm" "observables pm1 = observables pm"
    by simp_all
  show "next_observable (snd (run_referenced e uri pm)) = next_observable pm"
    using f1 p1
    by (simp add: run_referenced_def Let_def clear_slot_frame store_object_frame
          split: option.splits sum.splits)
  show "observables (snd (run_referenced e uri pm)) = observables pm"
    using f1 p1
    by (simp add: run_referenced_def Let_def clear_slot_frame store_object_frame
          split: option.splits sum.splits)
  show "updater_log (snd (run_referenced e uri pm)) = updater_log pm @ [Ensure uri]"
    using f1 p1
    by (simp add: run_referenced_def Let_def clear_slot_frame store_object_frame
          split: option.splits sum.splits)
  show "slot (ReferencedFiles uri) (snd (run_referenced e uri pm)) = None"
    if "snd (fst (run_referenced e uri pm)) \<noteq> None"
    using that f1
    by (simp add: run_referenced_def Let_def clear_slot_frame
          split: option.splits sum.splits)
qed

lemma run_pipeline_frame:
  "next_observable (snd (run_pipeline e p pm)) = next_observable pm"
  "observables (snd (run_pipeline e p pm)) = observables pm"
  "\<exists>rest. updater_log (snd (run_pipeline e p pm)) = updater_log pm @ first_call p # rest"
  "snd (fst (run_pipeline e p pm)) \<noteq> None \<Longrightarrow> slot p (snd (run_pipeline e p pm)) = None"
proof -
  show "next_observable (snd (run_pipeline e p pm)) = next_observable pm"
    by (cases p) (simp_all add: run_pipeline_def run_ensure_frame run_referenced_frame)
  show "observables (snd (run_pipeline e p pm)) = observables pm"
    by (cases p) (simp_all add: run_pipeline_def run_ensure_frame run_referenced_frame)
  show "\<exists>rest. updater_log (snd (run_pipeline e p pm)) = updater_log pm @ first_call p # rest"
    by (cases p)
       (simp_all add: run_pipeline_def run_ensure_frame run_referenced_frame first_call_def)
  show "slot p (snd (run_pipeline e p pm)) = None"
    if "snd (fst (run_pipeline e p pm)) \<noteq> None"
    using that
    by (cases p) (simp_all add: run_pipeline_def run_ensure_frame run_referenced_frame)
qed

lemma subscribe_unconnected:
  assumes "ob_replay (observables pm ob) = None" and "ob_pipeline (observables pm ob) = p"
  shows "fst (subscribe e ob pm) = fst (run_pipeline e p pm)"
    and "updater_log (snd (subscribe e ob pm)) = updater_log (snd (run_pipeline e p pm))"
    and "next_observable (snd (subscribe e ob pm)) = next_observable pm"
    and "slot q (snd (subscribe e ob pm)) = slot q (snd (run_pipeline e p pm))"
proof -
  obtain r pm1 where f: "run_pipeline e p pm = (r, pm1)"
    by (cases "run_pipeline e p pm")
  with run_pipeline_frame(1) [of e p pm] have n: "next_observable pm1 = next_observable pm"
    by simp
  from assms f have s: "subscribe e ob pm =
      (r, pm1\<lparr>observables := (observables pm1)(ob := (observables pm1 ob)\<lparr>ob_replay := Some r\<rparr>)\<rparr>)"
    by (simp add: subscribe_def)
  show "fst (subscribe e ob pm) = fst (run_pipeline e p pm)"
    "updater_log (snd (subscribe e ob pm)) = updater_log (snd (run_pipeline e p pm))"
    "next_observable (snd (subscribe e ob pm)) = next_observable pm"
    "slot q (snd (subscribe e ob pm)) = slot q (snd (run_pipeline e p pm))"
    using n by (simp_all add: s f slot_frame)
qed

lemma set_slot_frame:
  "slot p (set_slot p ob pm) = Some ob"
  "updater_log (set_slot p ob pm) = updater_log pm"
  "observables (set_slot p ob pm) = observables pm"
  "inMemoryFs (set_slot p ob pm) = inMemoryFs pm"
  by (cases p; simp add: set_slot_def slot_def update_conv')+

lemma memoized_empty:
  assumes "slot p pm = None"
  shows "fst (memoized p pm) = next_observable pm"
    and "observables (snd (memoized p pm)) (next_observable pm)
           = \<lparr>ob_pipeline = p, ob_replay = None\<rparr>"
    and "slot p (snd (memoized p pm)) = Some (next_observable pm)"
    and "updater_log (snd (memoized p pm)) = updater_log pm"
    and "inMemoryFs (snd (memoized p pm)) = inMemoryFs pm"
  using assms by (simp_all add: memoized_def Let_def set_slot_frame)

text \<open>
  C7. Take any of the four pipelines and an observable of it that has not been
  connected yet. When subscribing to it ends in an error, the state in which the error
  reaches the subscriber already has the slot of the pipeline (or the entry of the
  referenced-files map) cleared. The next invocation therefore does not return the
  failed observable: it creates a new, unconnected one and stores it in the slot, and
  subscribing to that one calls the updater again.
\<close>

theorem pipeline_error_clears_slot:
  assumes "ob_replay (observables pm ob) = None"
    and "ob_pipeline (observables pm ob) = p"
    and "ob < next_observable pm"
    and "subscribe e ob pm = ((vs, Some err), pm')"
  shows "slot p pm' = None \<and>
         fst (invoke p pm') \<noteq> ob \<and>
         slot p (snd (invoke p pm')) = Some (fst (invoke p pm')) \<and>
         observables (snd (invoke p pm')) (fst (invoke p pm'))
           = \<lparr>ob_pipeline = p, ob_replay = None\<rparr> \<and>
         (\<exists>rest. updater_log (subscribed e (invoke p pm'))
                   = updater_log pm' @ first_call p # rest)"
proof -
  from assms(4) have r: "fst (subscribe e ob pm) = (vs, Some err)" "snd (subscribe e ob pm) = pm'"
    by simp_all
  from subscribe_unconnected(1) [OF assms(1,2), of e] r(1)
  have "fst (run_pipeline e p pm) = (vs, Some err)"
    by (simp only:)
  then have "snd (fst (run_pipeline e p pm)) \<noteq> None"
    by simp
  then have "slot p (snd (run_pipeline e p pm)) = None"
    by (rule run_pipeline_frame(4))
  with subscribe_unconnected(4) [OF assms(1,2), of p e] r(2)
  have cleared: "slot p pm' = None"
    by simp
  from subscribe_unconnected(3) [OF assms(1,2), of e] r(2)
  have n: "next_observable pm' = next_observable pm"
    by simp
  note m = memoized_empty [OF cleared]
  define ob' where "ob' = fst (invoke p pm')"
  define pm'' where "pm'' = snd (invoke p pm')"
  have ob': "ob' = next_observable pm'"
    by (simp add: ob'_def invoke_memoized m(1))
  have fresh: "observables pm'' ob' = \<lparr>ob_pipeline = p, ob_replay = None\<rparr>"
    "slot p pm'' = Some ob'" "updater_log pm'' = updater_log pm'"
    by (simp_all add: ob' pm''_def invoke_memoized m)
  have other: "ob' \<noteq> ob"
    using assms(3) n ob' by simp
  from fresh(1) have un: "ob_replay (observables pm'' ob') = None"
    "ob_pipeline (observables pm'' ob') = p"
    by simp_all
  from run_pipeline_frame(3) [of e p pm''] obtain rest where
    "updater_log (snd (run_pipeline e p pm'')) = updater_log pm'' @ first_call p # rest"
    by blast
  with subscribe_unconnected(2) [OF un, of e] fresh(3)
  have "updater_log (subscribed e (invoke p pm')) = updater_log pm' @ first_call p # rest"
    by (simp add: subscribed_def ob'_def [symmetric] pm''_def [symmetric])
  then have again: "\<exists>rest. updater_log (subscribed e (invoke p pm'))
                   = updater_log pm' @ first_call p # rest"
    by blast
  from cleared other fresh(1,2) again show ?thesis
    unfolding ob'_def pm''_def by blast
qed

lemma demo_offline:
  "fst (subscribe demo_env_offline_once 0 (snd (ensureModuleStructure demo_pm)))
     = ([], Some (FetchError ''offline''))"
  "ob_replay (observables (snd (ensureModuleStructure demo_pm)) 0) = None"
  "ob_pipeline (observables (snd (ensureModuleStructure demo_pm)) 0) = ModuleStructure"
  "next_observable (snd (ensureModuleStructure demo_pm)) = 1"
  "updater_log (snd (subscribe demo_env_offline_once 0 (snd (ensureModuleStructure demo_pm))))
     = [EnsureStructure]"
  by code_simp+

theorem pipeline_error_clears_slot_witness:
  "ob_replay (observables (snd (ensureModuleStructure demo_pm)) 0) = None \<and>
   ob_pipeline (observables (snd (ensureModuleStructure demo_pm)) 0) = ModuleStructure \<and>
   0 < next_observable (snd (ensureModuleStructure demo_pm)) \<and>
   fst (subscribe demo_env_offline_once 0 (snd (ensureModuleStructure demo_pm)))
     = ([], Some (FetchError ''offline'')) \<and>
   ensuredModuleStructure
     (snd (subscribe demo_env_offline_once 0 (snd (ensureModuleStructure demo_pm)))) = None \<and>
   fst (ensureModuleStructure
          (snd (subscribe demo_env_offline_once 0 (snd (ensureModuleStructure demo_pm))))) \<noteq> 0 \<and>
   (\<exists>rest. updater_log
             (subscribed demo_env_offline_once
                (ensureModuleStructure
                   (snd (subscribe demo_env_offline_once 0 (snd (ensureModuleStructure demo_pm))))))
           = [EnsureStructure] @ EnsureStructure # rest)"
proof -
  define pm where "pm = snd (ensureModuleStructure demo_pm)"
  define pm' where "pm' = snd (subscribe demo_env_offline_once 0 pm)"
  have s: "subscribe demo_env_offline_once 0 pm = (([], Some (FetchError ''offline'')), pm')"
    using demo_offline(1) by (simp add: pm_def pm'_def prod_eq_iff)
  have h: "ob_replay (observables pm 0) = None" "ob_pipeline (observables pm 0) = ModuleStructure"
    "0 < next_observable pm"
    using demo_offline(2,3,4) by (simp_all add: pm_def)
  from pipeline_error_clears_slot [OF h s]
  have "ensuredModuleStructure pm' = None"
    and "fst (ensureModuleStructure pm') \<noteq> 0"
    and "\<exists>rest. updater_log (subscribed demo_env_offline_once (ensureModuleStructure pm'))
           = updater_log pm' @ EnsureStructure # rest"
    by (simp_all add: slot_def invoke_def first_call_def)
  with h demo_offline(1,5) show ?thesis
    by (simp add: pm_def pm'_def)
qed






end
